theory Spec2Isabelle
  imports Complex_Main
begin

section \<open>Data model of the camera punch tracker\<close>

text \<open>
  The component \<^verbatim>\<open>CameraPunchTracker\<close> keeps its engine state in React refs and state
  cells. JavaScript numbers are modelled as reals (no NaN, no infinities, no rounding), an
  optional field \<^verbatim>\<open>f?: T\<close> as \<open>T option\<close> with \<open>None\<close> for \<^verbatim>\<open>undefined\<close>.
  A \<^verbatim>\<open>{x, y}\<close> object is a \<open>point\<close> with fields \<open>px\<close>, \<open>py\<close>; a pose keypoint
  carries \<^verbatim>\<open>x\<close>, \<^verbatim>\<open>y\<close>, the optional \<^verbatim>\<open>score\<close> and the optional \<^verbatim>\<open>name\<close> and
  \<^verbatim>\<open>part\<close> that \<^verbatim>\<open>getKeypoint\<close> compares. Line numbers refer to the source file of
  the component.
\<close>

record point =
  px :: real
  py :: real

record keypoint =
  kp_x :: real
  kp_y :: real
  kp_score :: "real option"
  kp_name :: "string option"
  kp_part :: "string option"

datatype WristSide = SideLeft | SideRight

datatype CalibrationStatus = Waiting | Collecting | Complete

text \<open>The two exceptions the frame function can raise.\<close>

datatype JsError = TypeError | ReferenceError

record PunchStats =
  st_total :: nat
  st_lastSpeed :: real
  st_lastPower :: real
  st_lastPercent :: int

text \<open>
  The entries of \<^verbatim>\<open>HandDebug.reasons\<close>. The two messages that the source formats with
  \<^verbatim>\<open>toFixed\<close> keep the numbers they print.
\<close>

datatype Reason =
    ReasonWaiting
  | ShouldersMissing
  | LowShoulderConfidence
  | HandKeypointMissing
  | TorsoMoving
  | PunchActiveRetract
  | RangeTooSmall real
  | NotMovingForward
  | SpeedTooLow real real
  | NeedMoreReach
  | ReadyToStrike

record HandDebug =
  dbg_completion :: real
  dbg_speed :: real
  dbg_speedThreshold :: real
  dbg_movingForward :: bool
  dbg_movingBackward :: bool
  dbg_rangeNorm :: real
  dbg_extensionNorm :: real
  dbg_triggerNorm :: real
  dbg_restNorm :: real
  dbg_reasons :: "Reason list"
  dbg_active :: bool

text \<open>
  \<^verbatim>\<open>prevRef.current\<close>. Its per-side fields \<^verbatim>\<open>left\<close>/\<^verbatim>\<open>right\<close>,
  \<^verbatim>\<open>leftDistToShoulder\<close>/\<^verbatim>\<open>rightDistToShoulder\<close>, ... are grouped into one \<open>LimbPrev\<close>
  per side: \<open>Hand\<close> is \<^verbatim>\<open>prev.left\<close> (or \<^verbatim>\<open>prev.right\<close>), and field \<open>X\<close> is
  \<^verbatim>\<open>prev.leftX\<close> (or \<^verbatim>\<open>prev.rightX\<close>).
\<close>

record LimbPrev =
  Hand :: "point option"
  DistToShoulder :: "real option"
  PunchDetected :: "bool option"
  MaxExtension :: "real option"
  SpeedHistory :: "real list option"
  RestExtension :: "real option"
  RangeNorm :: "real option"
  Filtered :: "point option"
  NoiseSpeed :: "real option"
  CooldownUntil :: "real option"

record Prev =
  prev_t :: real
  prev_left :: LimbPrev
  prev_right :: LimbPrev
  calibrated :: "bool option"
  prevLeftShoulder :: "point option"
  prevRightShoulder :: "point option"

text \<open>The record stored under the key \<^verbatim>\<open>punchHistoryV1\<close> of \<^verbatim>\<open>localStorage\<close>.\<close>

record StoredHistory =
  sh_t :: real
  sh_left :: "real list"
  sh_right :: "real list"

record Engine =
  prev :: Prev
  leftStats :: PunchStats
  rightStats :: PunchStats
  leftDebug :: HandDebug
  rightDebug :: HandDebug
  calibrationStatus :: CalibrationStatus
  calibrationStatusRef :: CalibrationStatus
  leftHistory :: "real list"
  rightHistory :: "real list"
  localStorage :: "StoredHistory option"

text \<open>An entry of \<^verbatim>\<open>potentialPunches\<close>.\<close>

record Punch =
  p_side :: WristSide
  p_speed :: real
  p_power :: real

text \<open>
  One call of \<^verbatim>\<open>computePunches\<close>: the pose's keypoints, the value of
  \<^verbatim>\<open>performance.now()\<close> read at its start, and the value of \<^verbatim>\<open>Date.now()\<close> that
  \<^verbatim>\<open>saveHistory\<close> reads if a strike is stored.
\<close>

record Frame =
  f_now :: real
  f_dateNow :: real
  f_keypoints :: "keypoint list"

section \<open>Constants and small helpers\<close>

definition HISTORY_SIZE :: nat where "HISTORY_SIZE = 50"
definition PERCENTILE :: real where "PERCENTILE = 0.9"
definition minShoulderScore :: real where "minShoulderScore = 0.15"
definition minWristScore :: real where "minWristScore = 0.05"
definition smAlpha :: real where "smAlpha = 0.6"

definition hypot :: "real \<Rightarrow> real \<Rightarrow> real" where
  "hypot a b = sqrt (a\<^sup>2 + b\<^sup>2)"

definition distance :: "point \<Rightarrow> point \<Rightarrow> real" where
  "distance a b = (let dx = px a - px b; dy = py a - py b in hypot dx dy)"

definition getKeypoint :: "keypoint list \<Rightarrow> string \<Rightarrow> keypoint option" where
  "getKeypoint keypoints nm =
     find (\<lambda>k. kp_name k = Some nm \<or> kp_part k = Some nm) keypoints"

text \<open>\<^verbatim>\<open>k.score ?? 0\<close>\<close>

definition scoreOr0 :: "keypoint \<Rightarrow> real" where
  "scoreOr0 k = (case kp_score k of Some s \<Rightarrow> s | None \<Rightarrow> 0)"

definition pointOf :: "keypoint \<Rightarrow> point" where
  "pointOf k = \<lparr>px = kp_x k, py = kp_y k\<rparr>"

text \<open>Truthiness of an optional number: \<^verbatim>\<open>undefined\<close> and \<^verbatim>\<open>0\<close> are falsy.\<close>

definition truthyNum :: "real option \<Rightarrow> bool" where
  "truthyNum v = (case v of Some r \<Rightarrow> r \<noteq> 0 | None \<Rightarrow> False)"

text \<open>\<^verbatim>\<open>flag || false\<close> and \<^verbatim>\<open>!flag\<close> on an optional boolean.\<close>

definition truthyBool :: "bool option \<Rightarrow> bool" where
  "truthyBool v = (case v of Some b \<Rightarrow> b | None \<Rightarrow> False)"

text \<open>\<^verbatim>\<open>xs.slice(-n)\<close>: the last \<open>n\<close> elements.\<close>

definition sliceLast :: "nat \<Rightarrow> 'a list \<Rightarrow> 'a list" where
  "sliceLast n xs = drop (length xs - n) xs"

text \<open>\<^verbatim>\<open>xs.push(v); if (xs.length > n) xs.shift();\<close>\<close>

definition pushBounded :: "nat \<Rightarrow> 'a \<Rightarrow> 'a list \<Rightarrow> 'a list" where
  "pushBounded n v xs = (let ys = xs @ [v] in if length ys > n then tl ys else ys)"

definition emptyLimb :: LimbPrev where
  "emptyLimb = \<lparr>Hand = None, DistToShoulder = None, PunchDetected = None,
     MaxExtension = None, SpeedHistory = None, RestExtension = None, RangeNorm = None,
     Filtered = None, NoiseSpeed = None, CooldownUntil = None\<rparr>"

definition emptyDebug :: HandDebug where
  "emptyDebug = \<lparr>dbg_completion = 0, dbg_speed = 0, dbg_speedThreshold = 0,
     dbg_movingForward = False, dbg_movingBackward = False, dbg_rangeNorm = 0,
     dbg_extensionNorm = 0, dbg_triggerNorm = 0, dbg_restNorm = 0,
     dbg_reasons = [ReasonWaiting], dbg_active = False\<rparr>"

definition zeroStats :: PunchStats where
  "zeroStats = \<lparr>st_total = 0, st_lastSpeed = 0, st_lastPower = 0, st_lastPercent = 0\<rparr>"

text \<open>The state of a freshly mounted component, before the hydration effect runs.\<close>

definition initEngine :: "StoredHistory option \<Rightarrow> Engine" where
  "initEngine store = \<lparr>
     prev = \<lparr>prev_t = 0, prev_left = emptyLimb, prev_right = emptyLimb, calibrated = None,
             prevLeftShoulder = None, prevRightShoulder = None\<rparr>,
     leftStats = zeroStats, rightStats = zeroStats,
     leftDebug = emptyDebug, rightDebug = emptyDebug,
     calibrationStatus = Waiting, calibrationStatusRef = Waiting,
     leftHistory = [], rightHistory = [],
     localStorage = store\<rparr>"

definition limbOf :: "WristSide \<Rightarrow> Prev \<Rightarrow> LimbPrev" where
  "limbOf side p = (case side of SideLeft \<Rightarrow> prev_left p | SideRight \<Rightarrow> prev_right p)"

definition setLimb :: "WristSide \<Rightarrow> LimbPrev \<Rightarrow> Prev \<Rightarrow> Prev" where
  "setLimb side l p =
     (case side of SideLeft \<Rightarrow> p\<lparr>prev_left := l\<rparr> | SideRight \<Rightarrow> p\<lparr>prev_right := l\<rparr>)"

definition statsOf :: "WristSide \<Rightarrow> Engine \<Rightarrow> PunchStats" where
  "statsOf side e = (case side of SideLeft \<Rightarrow> leftStats e | SideRight \<Rightarrow> rightStats e)"

definition historyOf :: "WristSide \<Rightarrow> Engine \<Rightarrow> real list" where
  "historyOf side e = (case side of SideLeft \<Rightarrow> leftHistory e | SideRight \<Rightarrow> rightHistory e)"

definition debugOf :: "WristSide \<Rightarrow> Engine \<Rightarrow> HandDebug" where
  "debugOf side e = (case side of SideLeft \<Rightarrow> leftDebug e | SideRight \<Rightarrow> rightDebug e)"

section \<open>History persistence and scoring\<close>

text \<open>
  The hydration effect. \<open>dateNow\<close> is \<^verbatim>\<open>Date.now()\<close>; a missing item leaves the
  histories as they are.
\<close>

definition hydrate :: "real \<Rightarrow> Engine \<Rightarrow> Engine" where
  "hydrate dateNow e =
     (case localStorage e of
        None \<Rightarrow> e
      | Some parsed \<Rightarrow>
          if dateNow - sh_t parsed < 30 * 60 * 1000
          then e\<lparr>leftHistory := sliceLast HISTORY_SIZE (sh_left parsed),
                 rightHistory := sliceLast HISTORY_SIZE (sh_right parsed)\<rparr>
          else e)"

definition saveHistory :: "real \<Rightarrow> Engine \<Rightarrow> Engine" where
  "saveHistory dateNow e =
     e\<lparr>localStorage :=
         Some \<lparr>sh_t = dateNow, sh_left = leftHistory e, sh_right = rightHistory e\<rparr>\<rparr>"

definition pushHistory :: "real \<Rightarrow> WristSide \<Rightarrow> real \<Rightarrow> Engine \<Rightarrow> Engine" where
  "pushHistory dateNow side pw e =
     saveHistory dateNow
       (case side of
          SideLeft \<Rightarrow> e\<lparr>leftHistory := pushBounded HISTORY_SIZE pw (leftHistory e)\<rparr>
        | SideRight \<Rightarrow> e\<lparr>rightHistory := pushBounded HISTORY_SIZE pw (rightHistory e)\<rparr>)"

definition percentile :: "real list \<Rightarrow> real \<Rightarrow> real" where
  "percentile arr p =
     (if length arr = 0 then 0
      else let a = sort arr;
               i = min (int (length a) - 1) (max 0 (\<lfloor>p * (real (length a) - 1)\<rfloor>))
           in a ! nat i)"

text \<open>\<^verbatim>\<open>Math.max(...hist, power)\<close>\<close>

definition maxWith :: "real list \<Rightarrow> real \<Rightarrow> real" where
  "maxWith hist pw = foldr max hist pw"

text \<open>
  \<^verbatim>\<open>percentile(hist, PERCENTILE) || Math.max(...hist, power)\<close>: the right operand is
  taken when the percentile is \<open>0\<close>.
\<close>

definition baseline :: "real \<Rightarrow> real list \<Rightarrow> real" where
  "baseline pw hist =
     (let pc = percentile hist PERCENTILE in if pc \<noteq> 0 then pc else maxWith hist pw)"

text \<open>
  \<^verbatim>\<open>Math.round\<close> rounds half up, as \<open>round\<close> does: \<open>round x = \<lfloor>x + 1/2\<rfloor>\<close>. The
  numbers of the frame function are taken as reals: \<open>computePercent\<close> below is the
  function on finite values computed exactly. A double can also be \<^verbatim>\<open>Infinity\<close>,
  \<^verbatim>\<open>-Infinity\<close> or \<^verbatim>\<open>NaN\<close>; the next section follows the same lines of the source
  on those values.
\<close>

definition computePercent :: "real \<Rightarrow> real list \<Rightarrow> int" where
  "computePercent pw hist =
     (let base = max 0.001 (baseline pw hist);
          pct = round ((pw / base) * 100)
      in max 0 (min 150 pct))"

section \<open>The percent score on the special values of a number\<close>

text \<open>
  A JavaScript number is a finite value, \<^verbatim>\<open>Infinity\<close>, \<^verbatim>\<open>-Infinity\<close> or \<^verbatim>\<open>NaN\<close>.
  The operations that \<^verbatim>\<open>percentile\<close> and \<^verbatim>\<open>computePercent\<close> use are given with
  their IEEE 754 and ECMAScript rules for the special values. Finite values are computed
  exactly (no rounding to the nearest double, no overflow, no negative zero), so on finite
  inputs a result may differ from the double computation where a rounding error crosses a
  rounding tie of \<^verbatim>\<open>Math.round\<close>; the special values behave as in the source.
\<close>

datatype jsnum = Num real | Infinity | NegInfinity | NaN

definition signOf :: "jsnum \<Rightarrow> real" where
  "signOf v = (case v of Num a \<Rightarrow> sgn a | Infinity \<Rightarrow> 1 | NegInfinity \<Rightarrow> - 1 | NaN \<Rightarrow> 0)"

text \<open>The infinity of a given sign; a zero sign gives \<^verbatim>\<open>NaN\<close> (as in \<open>0 * Infinity\<close>).\<close>

definition infinityOf :: "real \<Rightarrow> jsnum" where
  "infinityOf s = (if s > 0 then Infinity else if s < 0 then NegInfinity else NaN)"

text \<open>\<^verbatim>\<open>x - y\<close>\<close>

definition jsSub :: "jsnum \<Rightarrow> jsnum \<Rightarrow> jsnum" where
  "jsSub x y =
     (case (x, y) of
        (NaN, _) \<Rightarrow> NaN
      | (_, NaN) \<Rightarrow> NaN
      | (Num a, Num b) \<Rightarrow> Num (a - b)
      | (Num a, Infinity) \<Rightarrow> NegInfinity
      | (Num a, NegInfinity) \<Rightarrow> Infinity
      | (Infinity, Infinity) \<Rightarrow> NaN
      | (Infinity, _) \<Rightarrow> Infinity
      | (NegInfinity, NegInfinity) \<Rightarrow> NaN
      | (NegInfinity, _) \<Rightarrow> NegInfinity)"

text \<open>\<^verbatim>\<open>x * y\<close>\<close>

definition jsMul :: "jsnum \<Rightarrow> jsnum \<Rightarrow> jsnum" where
  "jsMul x y =
     (case (x, y) of
        (NaN, _) \<Rightarrow> NaN
      | (_, NaN) \<Rightarrow> NaN
      | (Num a, Num b) \<Rightarrow> Num (a * b)
      | _ \<Rightarrow> infinityOf (signOf x * signOf y))"

text \<open>
  \<^verbatim>\<open>x / y\<close>: an infinity divided by an infinity is \<^verbatim>\<open>NaN\<close>, a finite value
  divided by an infinity is zero, and a division by zero gives an infinity, or \<^verbatim>\<open>NaN\<close>
  for \<open>0 / 0\<close>.
\<close>

definition jsDiv :: "jsnum \<Rightarrow> jsnum \<Rightarrow> jsnum" where
  "jsDiv x y =
     (case (x, y) of
        (NaN, _) \<Rightarrow> NaN
      | (_, NaN) \<Rightarrow> NaN
      | (Num a, Num b) \<Rightarrow> if b = 0 then infinityOf (sgn a) else Num (a / b)
      | (Num a, _) \<Rightarrow> Num 0
      | (_, Num b) \<Rightarrow> infinityOf (signOf x * (if b < 0 then - 1 else 1))
      | _ \<Rightarrow> NaN)"

text \<open>\<^verbatim>\<open>Math.max\<close> and \<^verbatim>\<open>Math.min\<close> return \<^verbatim>\<open>NaN\<close> when an argument is \<^verbatim>\<open>NaN\<close>.\<close>

definition jsMax :: "jsnum \<Rightarrow> jsnum \<Rightarrow> jsnum" where
  "jsMax x y =
     (case (x, y) of
        (NaN, _) \<Rightarrow> NaN
      | (_, NaN) \<Rightarrow> NaN
      | (Infinity, _) \<Rightarrow> Infinity
      | (_, Infinity) \<Rightarrow> Infinity
      | (NegInfinity, _) \<Rightarrow> y
      | (_, NegInfinity) \<Rightarrow> x
      | (Num a, Num b) \<Rightarrow> Num (max a b))"

definition jsMin :: "jsnum \<Rightarrow> jsnum \<Rightarrow> jsnum" where
  "jsMin x y =
     (case (x, y) of
        (NaN, _) \<Rightarrow> NaN
      | (_, NaN) \<Rightarrow> NaN
      | (NegInfinity, _) \<Rightarrow> NegInfinity
      | (_, NegInfinity) \<Rightarrow> NegInfinity
      | (Infinity, _) \<Rightarrow> y
      | (_, Infinity) \<Rightarrow> x
      | (Num a, Num b) \<Rightarrow> Num (min a b))"

text \<open>\<^verbatim>\<open>Math.round\<close> returns an infinity or \<^verbatim>\<open>NaN\<close> unchanged.\<close>

definition jsRound :: "jsnum \<Rightarrow> jsnum" where
  "jsRound x = (case x of Num a \<Rightarrow> Num (of_int (round a)) | _ \<Rightarrow> x)"

text \<open>Truthiness, for the operator \<^verbatim>\<open>||\<close>: zero and \<^verbatim>\<open>NaN\<close> are falsy.\<close>

definition jsTruthy :: "jsnum \<Rightarrow> bool" where
  "jsTruthy x = (case x of Num a \<Rightarrow> a \<noteq> 0 | NaN \<Rightarrow> False | _ \<Rightarrow> True)"

text \<open>
  \<^verbatim>\<open>[...arr].sort((x, y) => x - y)\<close>. Two elements are exchanged only when the
  comparator returns a positive number; a comparator result \<^verbatim>\<open>NaN\<close> (from two equal
  infinities, or from a \<^verbatim>\<open>NaN\<close> element) counts as zero. The sort is stable. For an
  array that holds \<^verbatim>\<open>NaN\<close> the comparator is not consistent and ECMAScript leaves the
  order to the implementation; the insertion order below is then one possible outcome.
\<close>

definition jsPositive :: "jsnum \<Rightarrow> bool" where
  "jsPositive x = (case x of Num a \<Rightarrow> a > 0 | Infinity \<Rightarrow> True | _ \<Rightarrow> False)"

fun jsInsert :: "jsnum \<Rightarrow> jsnum list \<Rightarrow> jsnum list" where
  "jsInsert x [] = [x]"
| "jsInsert x (y # ys) = (if jsPositive (jsSub x y) then y # jsInsert x ys else x # y # ys)"

definition jsSort :: "jsnum list \<Rightarrow> jsnum list" where
  "jsSort xs = foldr jsInsert xs []"

text \<open>Lines 480 to 485 and 487 to 491 on these numbers.\<close>

definition percentileJs :: "jsnum list \<Rightarrow> real \<Rightarrow> jsnum" where
  "percentileJs arr p =
     (if length arr = 0 then Num 0
      else let a = jsSort arr;
               i = min (int (length a) - 1) (max 0 (\<lfloor>p * (real (length a) - 1)\<rfloor>))
           in a ! nat i)"

definition computePercentJs :: "jsnum \<Rightarrow> jsnum list \<Rightarrow> jsnum" where
  "computePercentJs pw hist =
     (let pc = percentileJs hist PERCENTILE;
          base = jsMax (Num 0.001) (if jsTruthy pc then pc else foldr jsMax hist pw);
          pct = jsRound (jsMul (jsDiv pw base) (Num 100))
      in jsMax (Num 0) (jsMin (Num 150) pct))"

section \<open>The per-limb part of a frame\<close>

text \<open>
  What one iteration of the loop over the two sides hands back: the side's fields of
  \<^verbatim>\<open>prev\<close> after the iteration, the debug record it publishes, the
  \<^verbatim>\<open>(lastSpeed, lastPower)\<close> it writes into the side's stats (only on the path that
  reaches line 844) and the entry it pushes onto \<^verbatim>\<open>potentialPunches\<close>, if any.
\<close>

record LimbOut =
  lo_limb :: LimbPrev
  lo_debug :: HandDebug
  lo_stats :: "(real \<times> real) option"
  lo_punch :: "Punch option"

text \<open>Lines 800 to 803: the noise-aware update of the rest extension.\<close>

definition updateRest :: "bool \<Rightarrow> real \<Rightarrow> real \<Rightarrow> real \<Rightarrow> real \<Rightarrow> real" where
  "updateRest movingForward speedFwd noise distToShoulder rest =
     (if \<not> movingForward \<or> speedFwd < max 0.15 (noise * 1.2) \<or> distToShoulder < rest
      then rest + (distToShoulder - rest) * (if distToShoulder < rest then 0.6 else 0.03)
      else rest)"

text \<open>
  Lines 806 to 812: growth and decay of the maximum extension, then the clamp against the
  updated rest extension \<open>rest\<close>.
\<close>

definition updateMaxExt :: "bool \<Rightarrow> real \<Rightarrow> real \<Rightarrow> real \<Rightarrow> real \<Rightarrow> real" where
  "updateMaxExt movingForward distToShoulder nrm rest maxExt0 =
     (let maxExt1 = (if movingForward \<and> distToShoulder > maxExt0
                     then maxExt0 + (distToShoulder - maxExt0) * 0.3 else maxExt0);
          maxExt2 = (if \<not> movingForward
                     then maxExt1 - (maxExt1 - distToShoulder) * 0.02 else maxExt1)
      in max maxExt2 (rest + nrm * 0.04))"

text \<open>Lines 815 and 816.\<close>

definition extensionRangeOf :: "real \<Rightarrow> real \<Rightarrow> real \<Rightarrow> real" where
  "extensionRangeOf nrm rest maxExt =
     (let extensionRangeRaw = max 0 (maxExt - rest) in max extensionRangeRaw (nrm * 0.02))"

text \<open>Line 821.\<close>

definition speedThresholdOf :: "real \<Rightarrow> real \<Rightarrow> real" where
  "speedThresholdOf nrm extensionRange = max 0.6 (0.5 + (extensionRange / nrm) * 1.2)"

text \<open>Lines 823 to 825.\<close>

definition triggerDistOf :: "real \<Rightarrow> real \<Rightarrow> real \<Rightarrow> real" where
  "triggerDistOf nrm rest extensionRange =
     (let rangeNorm = extensionRange / nrm;
          triggerGain = (if rangeNorm < 0.06 then 0.5 else if rangeNorm < 0.1 then 0.6 else 0.65)
      in rest + extensionRange * triggerGain)"

text \<open>Line 827.\<close>

definition currentPowerOf :: "real \<Rightarrow> real \<Rightarrow> real \<Rightarrow> real" where
  "currentPowerOf nrm speedFwd distToShoulder =
     speedFwd * max 0.4 (min 1.6 (distToShoulder / nrm))"

text \<open>Lines 851 to 863: the completion fraction and the list of failing gates.\<close>

definition completionOf :: "bool \<Rightarrow> real \<Rightarrow> real \<Rightarrow> real \<Rightarrow> real \<Rightarrow> real" where
  "completionOf movingForward speedFwd distToShoulder rest triggerDist =
     (let triggerDelta = triggerDist - rest;
          completion = (if triggerDelta > 1 / 10000
                        then max 0 (min 1 ((distToShoulder - rest) / triggerDelta)) else 0)
      in if \<not> movingForward \<and> speedFwd < 0.1 then 0 else completion)"

definition reasonsOf ::
  "bool \<Rightarrow> bool \<Rightarrow> bool \<Rightarrow> real \<Rightarrow> real \<Rightarrow> real \<Rightarrow> real \<Rightarrow> real \<Rightarrow> real \<Rightarrow> Reason list" where
  "reasonsOf punchActive rangeEnough movingForward extensionRange nrm speedFwd speedThreshold
       distToShoulder triggerDist =
     (let reasons =
            (if punchActive then [PunchActiveRetract]
             else (if \<not> rangeEnough then [RangeTooSmall (extensionRange / nrm * 100)] else [])
                @ (if \<not> movingForward then [NotMovingForward] else [])
                @ (if speedFwd < speedThreshold then [SpeedTooLow speedFwd speedThreshold]
                   else [])
                @ (if distToShoulder < triggerDist then [NeedMoreReach] else []))
      in if reasons = [] then [ReadyToStrike] else reasons)"

text \<open>
  Lines 794 to 880: the dynamic update of a limb on a frame with a stable torso. The
  arguments after \<open>nrm\<close> (the source's \<^verbatim>\<open>norm\<close>) are the locals \<^verbatim>\<open>cur\<close>,
  \<^verbatim>\<open>distToShoulder\<close>, \<^verbatim>\<open>rest\<close>, \<^verbatim>\<open>maxExt\<close>, \<^verbatim>\<open>speed\<close>, \<^verbatim>\<open>speedFwd\<close>,
  \<^verbatim>\<open>movingForward\<close> and \<^verbatim>\<open>movingBackward\<close> as computed before line 774.
  \<open>fires\<close> is the condition of line 831.
\<close>

definition limbStable ::
  "WristSide \<Rightarrow> real \<Rightarrow> real \<Rightarrow> point \<Rightarrow> real \<Rightarrow> real \<Rightarrow> real \<Rightarrow> real \<Rightarrow> real \<Rightarrow> bool \<Rightarrow> bool
     \<Rightarrow> LimbPrev \<Rightarrow> LimbOut" where
  "limbStable side now nrm cur distToShoulder rest0 maxExt0 speed speedFwd
       movingForward movingBackward L =
     (let noisePrev = (case NoiseSpeed L of Some n \<Rightarrow> n | None \<Rightarrow> 0.05);
          noise = noisePrev * 0.9 + speed * 0.1;
          rest = updateRest movingForward speedFwd noise distToShoulder rest0;
          maxExt = updateMaxExt movingForward distToShoulder nrm rest maxExt0;
          extensionRange = extensionRangeOf nrm rest maxExt;
          punchActive = truthyBool (PunchDetected L);
          rangeEnough = (extensionRange \<ge> nrm * 0.06);
          speedThreshold = speedThresholdOf nrm extensionRange;
          triggerDist = triggerDistOf nrm rest extensionRange;
          resetDist = rest + extensionRange * 0.25;
          currentPower = currentPowerOf nrm speedFwd distToShoulder;
          inCooldown = ((case CooldownUntil L of Some c \<Rightarrow> c | None \<Rightarrow> 0) > now);
          fires = (\<not> punchActive \<and> \<not> inCooldown \<and> rangeEnough \<and> movingForward
                   \<and> speedFwd \<ge> speedThreshold \<and> distToShoulder \<ge> triggerDist);
          L1 = L\<lparr>NoiseSpeed := Some noise, RestExtension := Some rest,
                 MaxExtension := Some maxExt, RangeNorm := Some (extensionRange / nrm)\<rparr>;
          L2 = (if fires
                then L1\<lparr>PunchDetected := Some True, CooldownUntil := Some (now + 250)\<rparr>
                else L1);
          L3 = (if punchActive \<and> (movingBackward \<or> distToShoulder \<le> resetDist)
                then L2\<lparr>PunchDetected := Some False\<rparr> else L2);
          L4 = L3\<lparr>Hand := Some cur, DistToShoulder := Some distToShoulder\<rparr>
      in \<lparr>lo_limb = L4,
          lo_debug = \<lparr>dbg_completion =
              completionOf movingForward speedFwd distToShoulder rest triggerDist,
            dbg_speed = speedFwd,
            dbg_speedThreshold = speedThreshold, dbg_movingForward = movingForward,
            dbg_movingBackward = movingBackward, dbg_rangeNorm = extensionRange / nrm,
            dbg_extensionNorm = distToShoulder / nrm, dbg_triggerNorm = triggerDist / nrm,
            dbg_restNorm = rest / nrm,
            dbg_reasons = reasonsOf punchActive rangeEnough movingForward extensionRange nrm
                            speedFwd speedThreshold distToShoulder triggerDist,
            dbg_active = punchActive\<rparr>,
          lo_stats = Some (speedFwd, currentPower),
          lo_punch = (if fires
                      then Some \<lparr>p_side = side, p_speed = speedFwd, p_power = currentPower\<rparr>
                      else None)\<rparr>)"

text \<open>
  Lines 728 to 792: smoothing, distance, speeds and the forward/backward classification of
  a limb whose hand keypoint \<open>hand\<close> has been chosen, then either the unstable-torso exit
  or the dynamic update. The speed history array is mutated in place, so its new contents
  are stored on both paths; \<^verbatim>\<open>peakSpeed\<close> is computed by the source and never read.
\<close>

definition processHand ::
  "WristSide \<Rightarrow> real \<Rightarrow> real \<Rightarrow> real \<Rightarrow> bool \<Rightarrow> keypoint \<Rightarrow> keypoint \<Rightarrow> LimbPrev \<Rightarrow> LimbOut" where
  "processHand side now dt nrm torsoStable shoulder hand L =
     (let prevWrist = Hand L;
          prevDist = DistToShoulder L;
          curRaw = pointOf hand;
          prevFiltered = (case Filtered L of
                            Some f \<Rightarrow> f
                          | None \<Rightarrow> (case prevWrist of Some w \<Rightarrow> w | None \<Rightarrow> curRaw));
          cur = \<lparr>px = px prevFiltered * smAlpha + px curRaw * (1 - smAlpha),
                 py = py prevFiltered * smAlpha + py curRaw * (1 - smAlpha)\<rparr>;
          distToShoulder = distance cur (pointOf shoulder);
          rest = (case RestExtension L of Some r \<Rightarrow> r | None \<Rightarrow> distToShoulder);
          maxExt = (case MaxExtension L of Some m \<Rightarrow> m | None \<Rightarrow> distToShoulder);
          travel = distance cur prevFiltered;
          outwardX = px cur - kp_x shoulder;
          outwardY = py cur - kp_y shoulder;
          h = hypot outwardX outwardY;
          outwardLen = (if h = 0 then 1 else h);
          dirX = outwardX / outwardLen;
          dirY = outwardY / outwardLen;
          stepX = px cur - px prevFiltered;
          stepY = py cur - py prevFiltered;
          proj = stepX * dirX + stepY * dirY;
          speed = (travel / nrm) / dt;
          speedFwd = (max 0 proj / nrm) / dt;
          speedHistory = pushBounded 5 speed
                           (case SpeedHistory L of Some sh \<Rightarrow> sh | None \<Rightarrow> []);
          deltaDist = (case prevDist of Some d \<Rightarrow> distToShoulder - d | None \<Rightarrow> 0);
          forwardGate = max (nrm * 0.003) ((maxExt - rest) * 0.03);
          movingForward = (speedFwd > (if truthyNum (RangeNorm L) then 0.3 else 0.15)
                           \<and> deltaDist > forwardGate);
          movingBackward = (deltaDist < - forwardGate \<and> speedFwd < 0.2);
          L1 = L\<lparr>Filtered := Some cur, SpeedHistory := Some speedHistory\<rparr>
      in if \<not> torsoStable
         then \<lparr>lo_limb = L1\<lparr>Hand := Some cur, DistToShoulder := Some distToShoulder\<rparr>,
               lo_debug = \<lparr>dbg_completion = 0, dbg_speed = speedFwd, dbg_speedThreshold = 0.6,
                 dbg_movingForward = False, dbg_movingBackward = False,
                 dbg_rangeNorm = (case RangeNorm L of Some r \<Rightarrow> r | None \<Rightarrow> 0),
                 dbg_extensionNorm = distToShoulder / nrm, dbg_triggerNorm = 0,
                 dbg_restNorm = rest / nrm, dbg_reasons = [TorsoMoving],
                 dbg_active = truthyBool (PunchDetected L)\<rparr>,
               lo_stats = None, lo_punch = None\<rparr>
         else limbStable side now nrm cur distToShoulder rest maxExt speed speedFwd
                movingForward movingBackward L1)"

text \<open>
  Lines 694 to 705: the wrist if it is present with score at least 0.05, else the elbow,
  else a keypoint made from the previous hand position with score 0.
\<close>

definition chooseHand :: "keypoint option \<Rightarrow> keypoint option \<Rightarrow> point option \<Rightarrow> keypoint option" where
  "chooseHand wrist elbow prevWrist =
     (let hand = (case wrist of
                    Some w \<Rightarrow> if scoreOr0 w \<ge> minWristScore then Some w else elbow
                  | None \<Rightarrow> elbow)
      in case hand of
           Some h \<Rightarrow> Some h
         | None \<Rightarrow> (case prevWrist of
                      Some prevHand \<Rightarrow>
                        Some \<lparr>kp_x = px prevHand, kp_y = py prevHand, kp_score = Some 0,
                              kp_name = None, kp_part = None\<rparr>
                    | None \<Rightarrow> None))"

text \<open>The values that \<^verbatim>\<open>computePunches\<close> fixes before its loop over the sides.\<close>

record FrameCtx =
  c_now :: real
  c_dateNow :: real
  c_dt :: real
  c_norm :: real
  c_torsoStable :: bool
  c_ls :: keypoint
  c_rs :: keypoint
  c_lw :: "keypoint option"
  c_rw :: "keypoint option"
  c_le :: "keypoint option"
  c_re :: "keypoint option"

definition setDebug :: "WristSide \<Rightarrow> HandDebug \<Rightarrow> Engine \<Rightarrow> Engine" where
  "setDebug side d e =
     (case side of SideLeft \<Rightarrow> e\<lparr>leftDebug := d\<rparr> | SideRight \<Rightarrow> e\<lparr>rightDebug := d\<rparr>)"

definition setStats :: "WristSide \<Rightarrow> (PunchStats \<Rightarrow> PunchStats) \<Rightarrow> Engine \<Rightarrow> Engine" where
  "setStats side f e =
     (case side of
        SideLeft \<Rightarrow> e\<lparr>leftStats := f (leftStats e)\<rparr>
      | SideRight \<Rightarrow> e\<lparr>rightStats := f (rightStats e)\<rparr>)"

text \<open>
  The hand keypoint of a side and, when there is one, the result of lines 728 to 880 on
  the side's fields of \<^verbatim>\<open>prev\<close>.
\<close>

definition sideOut :: "FrameCtx \<Rightarrow> WristSide \<Rightarrow> LimbPrev \<Rightarrow> LimbOut option" where
  "sideOut c side L =
     (let wrist = (case side of SideLeft \<Rightarrow> c_lw c | SideRight \<Rightarrow> c_rw c);
          elbow = (case side of SideLeft \<Rightarrow> c_le c | SideRight \<Rightarrow> c_re c);
          shoulder = (case side of SideLeft \<Rightarrow> c_ls c | SideRight \<Rightarrow> c_rs c)
      in case chooseHand wrist elbow (Hand L) of
           None \<Rightarrow> None
         | Some hand \<Rightarrow>
             Some (processHand side (c_now c) (c_dt c) (c_norm c) (c_torsoStable c)
                     shoulder hand L))"

text \<open>
  The writes of one iteration: the side's fields of \<^verbatim>\<open>prev\<close>, the two stats fields
  of line 844 or 848, and the published debug record.
\<close>

definition applyOut :: "WristSide \<Rightarrow> LimbOut \<Rightarrow> Engine \<Rightarrow> Engine" where
  "applyOut side out e =
     (let e1 = e\<lparr>prev := setLimb side (lo_limb out) (prev e)\<rparr>;
          e2 = (case lo_stats out of
                  Some (sp, pw) \<Rightarrow>
                    setStats side (\<lambda>s. s\<lparr>st_lastSpeed := sp, st_lastPower := pw\<rparr>) e1
                | None \<Rightarrow> e1)
      in setDebug side (lo_debug out) e2)"

text \<open>
  One iteration of \<^verbatim>\<open>for (const side of sides)\<close>. When no hand keypoint is found
  (line 707), the branch builds its debug record from \<^verbatim>\<open>prev[rangeNormKey]\<close> and
  \<^verbatim>\<open>prev[punchFlagKey]\<close> (lines 714 and 719), but both keys are \<^verbatim>\<open>const\<close>
  bindings of the same loop body declared further down (lines 742 and 743): they are still
  uninitialised there, and reading such a binding raises a ReferenceError. The exception
  leaves the loop before the branch has published or stored anything.
\<close>

definition sideIteration ::
  "FrameCtx \<Rightarrow> WristSide \<Rightarrow> Engine \<times> Punch list \<Rightarrow> JsError option \<times> Engine \<times> Punch list" where
  "sideIteration c side ep =
     (let e = fst ep;
          potentialPunches = snd ep
      in case sideOut c side (limbOf side (prev e)) of
           None \<Rightarrow> (Some ReferenceError, e, potentialPunches)
         | Some out \<Rightarrow>
             (None, applyOut side out e,
              potentialPunches @ (case lo_punch out of Some p \<Rightarrow> [p] | None \<Rightarrow> [])))"

fun forSides ::
  "FrameCtx \<Rightarrow> WristSide list \<Rightarrow> Engine \<times> Punch list \<Rightarrow> JsError option \<times> Engine \<times> Punch list" where
  "forSides c [] ep = (None, fst ep, snd ep)"
| "forSides c (side # sides) ep =
     (case sideIteration c side ep of
        (Some err, e, pp) \<Rightarrow> (Some err, e, pp)
      | (None, e, pp) \<Rightarrow> forSides c sides (e, pp))"

section \<open>Calibration, arbitration and acceptance\<close>

definition setCalibrationStatusSafe :: "CalibrationStatus \<Rightarrow> Engine \<Rightarrow> Engine" where
  "setCalibrationStatusSafe nxt e =
     (if calibrationStatusRef e = nxt then e
      else e\<lparr>calibrationStatusRef := nxt, calibrationStatus := nxt\<rparr>)"

text \<open>Lines 883 to 893.\<close>

definition updateCalibration :: "Engine \<Rightarrow> Engine" where
  "updateCalibration e =
     (if \<not> truthyBool (calibrated (prev e))
      then (let leftRange = (case RangeNorm (prev_left (prev e)) of Some r \<Rightarrow> r | None \<Rightarrow> 0);
                rightRange = (case RangeNorm (prev_right (prev e)) of Some r \<Rightarrow> r | None \<Rightarrow> 0);
                collecting = (leftRange > 0.08 \<or> rightRange > 0.08)
            in if leftRange > 0.18 \<or> rightRange > 0.18
               then setCalibrationStatusSafe Complete
                      (e\<lparr>prev := (prev e)\<lparr>calibrated := Some True\<rparr>\<rparr>)
               else setCalibrationStatusSafe (if collecting then Collecting else Waiting) e)
      else e)"

text \<open>
  Lines 896 to 898, for a non-empty \<^verbatim>\<open>potentialPunches\<close>. \<^verbatim>\<open>reduce\<close> without an
  initial value starts from the first element.
\<close>

definition arbitrate :: "Punch list \<Rightarrow> Punch list" where
  "arbitrate potentialPunches =
     (if length potentialPunches = 1 then potentialPunches
      else [foldl (\<lambda>best current. if p_power current > p_power best then current else best)
              (hd potentialPunches) (tl potentialPunches)])"

text \<open>
  Lines 900 to 916, one accepted punch. The raw wrist keypoint is read first
  (\<^verbatim>\<open>lw.x\<close>, \<^verbatim>\<open>rw.x\<close>): when that keypoint is \<^verbatim>\<open>undefined\<close> the property read
  raises a TypeError before anything is stored.
\<close>

definition acceptPunch :: "FrameCtx \<Rightarrow> Punch \<Rightarrow> Engine \<Rightarrow> JsError option \<times> Engine" where
  "acceptPunch c punch e =
     (case (case p_side punch of SideLeft \<Rightarrow> c_lw c | SideRight \<Rightarrow> c_rw c) of
        None \<Rightarrow> (Some TypeError, e)
      | Some w \<Rightarrow>
          (let shoulder = (case p_side punch of SideLeft \<Rightarrow> c_ls c | SideRight \<Rightarrow> c_rs c);
               distToShoulder = distance (pointOf w) (pointOf shoulder);
               e1 = pushHistory (c_dateNow c) (p_side punch) (p_power punch) e;
               pct = computePercent (p_power punch) (historyOf (p_side punch) e1);
               e2 = setStats (p_side punch)
                      (\<lambda>s. \<lparr>st_total = st_total s + 1, st_lastSpeed = p_speed punch,
                            st_lastPower = p_power punch, st_lastPercent = pct\<rparr>) e1;
               L = limbOf (p_side punch) (prev e2);
               m = (case MaxExtension L of Some v \<Rightarrow> v | None \<Rightarrow> 0);
               L' = L\<lparr>MaxExtension := Some (max m distToShoulder)\<rparr>
           in (None, e2\<lparr>prev := setLimb (p_side punch) L' (prev e2)\<rparr>)))"

fun acceptPunches :: "FrameCtx \<Rightarrow> Punch list \<Rightarrow> Engine \<Rightarrow> JsError option \<times> Engine" where
  "acceptPunches c [] e = (None, e)"
| "acceptPunches c (punch # punches) e =
     (case acceptPunch c punch e of
        (Some err, e') \<Rightarrow> (Some err, e')
      | (None, e') \<Rightarrow> acceptPunches c punches e')"

section \<open>The frame function\<close>

definition shouldersDebug :: "Reason \<Rightarrow> HandDebug" where
  "shouldersDebug r = emptyDebug\<lparr>dbg_reasons := [r]\<rparr>"

text \<open>
  Lines 673 to 686: shoulder span, the torso stability check and \<^verbatim>\<open>dt\<close>;
  \<^verbatim>\<open>prev.t || now\<close> is \<^verbatim>\<open>now\<close> when \<^verbatim>\<open>prev.t\<close> is \<open>0\<close>.
\<close>

definition frameCtx :: "Frame \<Rightarrow> Prev \<Rightarrow> keypoint \<Rightarrow> keypoint \<Rightarrow> FrameCtx" where
  "frameCtx fr p ls rs =
     (let now = f_now fr;
          kps = f_keypoints fr;
          leftShoulderPt = pointOf ls;
          rightShoulderPt = pointOf rs;
          shoulderSpan = distance leftShoulderPt rightShoulderPt;
          nrm = max shoulderSpan 1;
          prevLeftSh = (case prevLeftShoulder p of Some q \<Rightarrow> q | None \<Rightarrow> leftShoulderPt);
          prevRightSh = (case prevRightShoulder p of Some q \<Rightarrow> q | None \<Rightarrow> rightShoulderPt);
          shMove = (distance leftShoulderPt prevLeftSh + distance rightShoulderPt prevRightSh)
                     / (2 * nrm);
          dt = max ((now - (if prev_t p = 0 then now else prev_t p)) / 1000) (1 / 120)
      in \<lparr>c_now = now, c_dateNow = f_dateNow fr, c_dt = dt, c_norm = nrm,
          c_torsoStable = (shMove < 0.08), c_ls = ls, c_rs = rs,
          c_lw = getKeypoint kps ''left_wrist'', c_rw = getKeypoint kps ''right_wrist'',
          c_le = getKeypoint kps ''left_elbow'', c_re = getKeypoint kps ''right_elbow''\<rparr>)"

text \<open>
  The entries of \<^verbatim>\<open>potentialPunches\<close> after the loop over the sides, for a frame whose
  shoulders pass the checks of lines 634 and 653: what the two limbs propose.
\<close>

definition limbsPass :: "Frame \<Rightarrow> Engine \<Rightarrow> keypoint \<Rightarrow> keypoint \<Rightarrow> JsError option \<times> Engine \<times> Punch list" where
  "limbsPass fr e ls rs =
     (let c = frameCtx fr (prev e) ls rs;
          e0 = e\<lparr>prev := (prev e)\<lparr>prevLeftShoulder := Some (pointOf ls),
                                   prevRightShoulder := Some (pointOf rs)\<rparr>\<rparr>
      in forSides c [SideLeft, SideRight] (e0, []))"

definition computePunches :: "Frame \<Rightarrow> Engine \<Rightarrow> JsError option \<times> Engine" where
  "computePunches fr e =
     (let now = f_now fr;
          kps = f_keypoints fr
      in case (getKeypoint kps ''left_shoulder'', getKeypoint kps ''right_shoulder'') of
           (Some ls, Some rs) \<Rightarrow>
             if scoreOr0 ls < minShoulderScore \<or> scoreOr0 rs < minShoulderScore
             then (None, e\<lparr>leftDebug := shouldersDebug LowShoulderConfidence,
                           rightDebug := shouldersDebug LowShoulderConfidence,
                           prev := (prev e)\<lparr>prev_t := now\<rparr>\<rparr>)
             else (case limbsPass fr e ls rs of
                     (Some err, e1, pp) \<Rightarrow> (Some err, e1)
                   | (None, e1, potentialPunches) \<Rightarrow>
                       (let e2 = updateCalibration e1
                        in case (if length potentialPunches > 0
                                 then acceptPunches (frameCtx fr (prev e) ls rs)
                                        (arbitrate potentialPunches) e2
                                 else (None, e2)) of
                             (Some err, e3) \<Rightarrow> (Some err, e3)
                           | (None, e3) \<Rightarrow> (None, e3\<lparr>prev := (prev e3)\<lparr>prev_t := now\<rparr>\<rparr>)))
         | _ \<Rightarrow> (None, e\<lparr>leftDebug := shouldersDebug ShouldersMissing,
                         rightDebug := shouldersDebug ShouldersMissing,
                         prev := (prev e)\<lparr>prev_t := now\<rparr>\<rparr>))"

text \<open>
  The proposals of a frame: the contents of \<^verbatim>\<open>potentialPunches\<close> when the loop over
  the sides ends (none on the two early returns).
\<close>

definition proposals :: "Frame \<Rightarrow> Engine \<Rightarrow> Punch list" where
  "proposals fr e =
     (case (getKeypoint (f_keypoints fr) ''left_shoulder'',
            getKeypoint (f_keypoints fr) ''right_shoulder'') of
        (Some ls, Some rs) \<Rightarrow>
          if scoreOr0 ls < minShoulderScore \<or> scoreOr0 rs < minShoulderScore then []
          else snd (snd (limbsPass fr e ls rs))
      | _ \<Rightarrow> [])"

text \<open>
  The animation loop schedules its next call before it awaits the pose, so an exception
  raised by \<^verbatim>\<open>computePunches\<close> only rejects the promise of that call: the writes made
  before the exception stay, and the next frame is processed from that state.
\<close>

fun run :: "Frame list \<Rightarrow> Engine \<Rightarrow> Engine" where
  "run [] e = e"
| "run (fr # frs) e = run frs (snd (computePunches fr e))"

section \<open>Reference definitions taken from the specification\<close>

text \<open>
  The percentile as the specification words it ("nearest-rank: sort ascending, index =
  round(0.9*(n-1)), clamped to valid range"), to be compared with \<open>percentile\<close>, which
  follows the source.
\<close>

definition percentileNearestRank :: "real list \<Rightarrow> real \<Rightarrow> real" where
  "percentileNearestRank arr p =
     (let a = sort arr;
          i = min (int (length a) - 1) (max 0 (round (p * (real (length a) - 1))))
      in a ! nat i)"

section \<open>Notions used in the statements\<close>

text \<open>
  The extension invariant of a limb: rest and maximum extension are stored together, and
  the maximum is at least 0.04 above the rest (the clamp of line 812 with the least
  possible \<^verbatim>\<open>norm\<close>, which is 1).
\<close>

definition extInv :: "LimbPrev \<Rightarrow> bool" where
  "extInv L = (case (RestExtension L, MaxExtension L) of
                 (Some r, Some m) \<Rightarrow> m \<ge> r + 0.04
               | (None, None) \<Rightarrow> True
               | _ \<Rightarrow> False)"

text \<open>What one iteration appends to \<^verbatim>\<open>potentialPunches\<close>.\<close>

definition punchList :: "LimbOut \<Rightarrow> Punch list" where
  "punchList out = (case lo_punch out of Some p \<Rightarrow> [p] | None \<Rightarrow> [])"

text \<open>The shoulders of a frame that passes both shoulder checks.\<close>

definition shouldersOk :: "Frame \<Rightarrow> (keypoint \<times> keypoint) option" where
  "shouldersOk fr =
     (case (getKeypoint (f_keypoints fr) ''left_shoulder'',
            getKeypoint (f_keypoints fr) ''right_shoulder'') of
        (Some ls, Some rs) \<Rightarrow>
          if scoreOr0 ls < minShoulderScore \<or> scoreOr0 rs < minShoulderScore then None
          else Some (ls, rs)
      | _ \<Rightarrow> None)"

text \<open>Lines 682 and 683.\<close>

definition withShoulders :: "keypoint \<Rightarrow> keypoint \<Rightarrow> Engine \<Rightarrow> Engine" where
  "withShoulders ls rs e = e\<lparr>prev := (prev e)\<lparr>prevLeftShoulder := Some (pointOf ls),
                                   prevRightShoulder := Some (pointOf rs)\<rparr>\<rparr>"

text \<open>The proposals of one side.\<close>

definition punchesOf :: "WristSide \<Rightarrow> Punch list \<Rightarrow> Punch list" where
  "punchesOf s pp = filter (\<lambda>p. p_side p = s) pp"

text \<open>\<^verbatim>\<open>prev.leftMaxExtension || 0\<close>\<close>

definition maxOr0 :: "LimbPrev \<Rightarrow> real" where
  "maxOr0 L = (case MaxExtension L of Some v \<Rightarrow> v | None \<Rightarrow> 0)"

text \<open>The effect of line 909 or 914 on the side's fields.\<close>

definition raiseMax :: "real \<Rightarrow> LimbPrev \<Rightarrow> LimbPrev" where
  "raiseMax d L = L\<lparr>MaxExtension := Some (max (maxOr0 L) d)\<rparr>"

text \<open>
  A limb is processed on a frame when the shoulders pass the checks and a hand keypoint is
  found for it and, for the right limb, for the left limb before it.
\<close>

definition processedOut :: "Frame \<Rightarrow> Engine \<Rightarrow> WristSide \<Rightarrow> LimbOut option" where
  "processedOut fr e s =
     (case shouldersOk fr of
        None \<Rightarrow> None
      | Some (ls, rs) \<Rightarrow>
          (case sideOut (frameCtx fr (prev e) ls rs) SideLeft (prev_left (prev e)) of
             None \<Rightarrow> None
           | Some oL \<Rightarrow>
               (case s of
                  SideLeft \<Rightarrow> Some oL
                | SideRight \<Rightarrow>
                    sideOut (frameCtx fr (prev e) ls rs) SideRight (prev_right (prev e)))))"

text \<open>
  The strikes accepted in a frame: the list \<^verbatim>\<open>punches\<close> that lines 896 to 898 select
  from the proposals and hand to the scoring loop. Line 895 is reached only when the loop
  over the sides has processed both limbs (otherwise it has thrown, and nothing is
  selected); nothing is selected either when nothing was proposed. The scoring loop counts
  a selected strike unless it throws first.
\<close>

definition accepted :: "Frame \<Rightarrow> Engine \<Rightarrow> Punch list" where
  "accepted fr e =
     (case processedOut fr e SideRight of
        None \<Rightarrow> []
      | Some oR \<Rightarrow>
          (let potentialPunches = proposals fr e
           in if length potentialPunches > 0 then arbitrate potentialPunches else []))"

text \<open>The proposals of each frame of a sequence, in order.\<close>

fun runProposals :: "Frame list \<Rightarrow> Engine \<Rightarrow> Punch list list" where
  "runProposals [] e = []"
| "runProposals (fr # frs) e = proposals fr e # runProposals frs (snd (computePunches fr e))"

text \<open>
  The status that lines 886 to 891 select for a left and a right range, while the engine
  is not yet calibrated.
\<close>

definition statusFor :: "real \<Rightarrow> real \<Rightarrow> CalibrationStatus" where
  "statusFor leftRange rightRange =
     (if leftRange > 0.18 \<or> rightRange > 0.18 then Complete
      else if leftRange > 0.08 \<or> rightRange > 0.08 then Collecting else Waiting)"

text \<open>\<^verbatim>\<open>prev.leftRangeNorm ?? 0\<close> and \<^verbatim>\<open>prev.rightRangeNorm ?? 0\<close>\<close>

definition rangeOr0 :: "WristSide \<Rightarrow> Engine \<Rightarrow> real" where
  "rangeOr0 s e = (case RangeNorm (limbOf s (prev e)) of Some r \<Rightarrow> r | None \<Rightarrow> 0)"

text \<open>Once the status is Complete, the latch \<^verbatim>\<open>prev.calibrated\<close> is set.\<close>

definition calInv :: "Engine \<Rightarrow> bool" where
  "calInv e = ((calibrationStatusRef e = Complete \<longrightarrow> truthyBool (calibrated (prev e)))
               \<and> calibrationStatus e = calibrationStatusRef e)"

section \<open>Example frames\<close>

text \<open>
  All keypoints of the example frames lie on the x axis with score 1; the right shoulder is at
  0 and the left shoulder at 100 unless said otherwise, so the shoulder span is 100.
\<close>

definition kpAt :: "string \<Rightarrow> real \<Rightarrow> keypoint" where
  "kpAt nm x = \<lparr>kp_x = x, kp_y = 0, kp_score = Some 1, kp_name = Some nm, kp_part = None\<rparr>"

definition frameAt :: "real \<Rightarrow> keypoint list \<Rightarrow> Frame" where
  "frameAt now kps = \<lparr>f_now = now, f_dateNow = 1700000000000, f_keypoints = kps\<rparr>"

text \<open>First frame: both hands at rest, 10 units outside their shoulders.\<close>

definition frameF1 :: Frame where
  "frameF1 = frameAt 1000 [kpAt ''left_shoulder'' 100, kpAt ''right_shoulder'' 0,
                           kpAt ''left_wrist'' 110, kpAt ''right_wrist'' (- 10)]"

text \<open>The same first frame with no left wrist keypoint: the left elbow stands in.\<close>

definition frameA1 :: Frame where
  "frameA1 = frameAt 1000 [kpAt ''left_shoulder'' 100, kpAt ''right_shoulder'' 0,
                           kpAt ''left_elbow'' 110, kpAt ''right_wrist'' (- 10)]"

text \<open>100 ms later the left elbow has moved out fast; there is still no left wrist.\<close>

definition frameA2 :: Frame where
  "frameA2 = frameAt 1100 [kpAt ''left_shoulder'' 100, kpAt ''right_shoulder'' 0,
                           kpAt ''left_elbow'' 210, kpAt ''right_wrist'' (- 10)]"

text \<open>A slow reach of the left hand, 500 ms after the first frame, and its return.\<close>

definition frameB2 :: Frame where
  "frameB2 = frameAt 1500 [kpAt ''left_shoulder'' 100, kpAt ''right_shoulder'' 0,
                           kpAt ''left_wrist'' 155, kpAt ''right_wrist'' (- 10)]"

definition frameB3 :: Frame where
  "frameB3 = frameAt 2000 [kpAt ''left_shoulder'' 100, kpAt ''right_shoulder'' 0,
                           kpAt ''left_wrist'' 110, kpAt ''right_wrist'' (- 10)]"

text \<open>Both hands strike in the frame 100 ms after the first one.\<close>

definition frameD2 :: Frame where
  "frameD2 = frameAt 1100 [kpAt ''left_shoulder'' 100, kpAt ''right_shoulder'' 0,
                           kpAt ''left_wrist'' 260, kpAt ''right_wrist'' (- 210)]"

text \<open>The hands stay where they were; the left shoulder has moved from 100 to 120.\<close>

definition frameE2 :: Frame where
  "frameE2 = frameAt 1100 [kpAt ''left_shoulder'' 120, kpAt ''right_shoulder'' 0,
                           kpAt ''left_wrist'' 110, kpAt ''right_wrist'' (- 10)]"

text \<open>A first frame with neither a left wrist nor a left elbow.\<close>

definition frameM1 :: Frame where
  "frameM1 = frameAt 1000 [kpAt ''left_shoulder'' 100, kpAt ''right_shoulder'' 0,
                           kpAt ''right_wrist'' (- 10)]"

text \<open>The context of a frame with the right shoulder at 0.\<close>

definition ctxOf ::
  "real \<Rightarrow> real \<Rightarrow> real \<Rightarrow> bool \<Rightarrow> real \<Rightarrow> keypoint option \<Rightarrow> keypoint option
     \<Rightarrow> keypoint option \<Rightarrow> keypoint option \<Rightarrow> FrameCtx" where
  "ctxOf now dt nrm stab lsx lw rw le re =
     \<lparr>c_now = now, c_dateNow = 1700000000000, c_dt = dt, c_norm = nrm, c_torsoStable = stab,
      c_ls = kpAt ''left_shoulder'' lsx, c_rs = kpAt ''right_shoulder'' 0,
      c_lw = lw, c_rw = rw, c_le = le, c_re = re\<rparr>"

text \<open>The fields of a limb after the first frame, its hand at \<open>x\<close>.\<close>

definition limbF1 :: "real \<Rightarrow> LimbPrev" where
  "limbF1 x = \<lparr>Hand = Some \<lparr>px = x, py = 0\<rparr>, DistToShoulder = Some 10,
       PunchDetected = None, MaxExtension = Some 14, SpeedHistory = Some [0],
       RestExtension = Some 10, RangeNorm = Some (1 / 25), Filtered = Some \<lparr>px = x, py = 0\<rparr>,
       NoiseSpeed = Some (9 / 200), CooldownUntil = None\<rparr>"

definition debugF1 :: HandDebug where
  "debugF1 = \<lparr>dbg_completion = 0, dbg_speed = 0, dbg_speedThreshold = 3 / 5,
       dbg_movingForward = False, dbg_movingBackward = False,
       dbg_rangeNorm = 1 / 25, dbg_extensionNorm = 1 / 10,
       dbg_triggerNorm = 3 / 25, dbg_restNorm = 1 / 10,
       dbg_reasons = [RangeTooSmall 4, NotMovingForward, SpeedTooLow 0 (3 / 5), NeedMoreReach],
       dbg_active = False\<rparr>"

definition outF1 :: "real \<Rightarrow> LimbOut" where
  "outF1 x = \<lparr>lo_limb = limbF1 x, lo_debug = debugF1, lo_stats = Some (0, 0), lo_punch = None\<rparr>"

text \<open>The engine after the first frame.\<close>

definition stateF1 :: Engine where
  "stateF1 = \<lparr>
     prev = \<lparr>prev_t = 1000, prev_left = limbF1 110, prev_right = limbF1 (- 10),
             calibrated = None, prevLeftShoulder = Some \<lparr>px = 100, py = 0\<rparr>,
             prevRightShoulder = Some \<lparr>px = 0, py = 0\<rparr>\<rparr>,
     leftStats = zeroStats, rightStats = zeroStats,
     leftDebug = debugF1, rightDebug = debugF1,
     calibrationStatus = Waiting, calibrationStatusRef = Waiting,
     leftHistory = [], rightHistory = [],
     localStorage = None\<rparr>"

text \<open>The right limb after a second frame in which it has not moved.\<close>

definition limbRest2 :: "real \<Rightarrow> LimbPrev" where
  "limbRest2 noise = (limbF1 (- 10))\<lparr>SpeedHistory := Some [0, 0], NoiseSpeed := Some noise\<rparr>"

text \<open>The left limb after the slow reach of \<open>frameB2\<close>.\<close>

definition limbB2 :: LimbPrev where
  "limbB2 = \<lparr>Hand = Some \<lparr>px = 128, py = 0\<rparr>, DistToShoulder = Some 28,
       PunchDetected = None, MaxExtension = Some (91 / 5), SpeedHistory = Some [0, 9 / 25],
       RestExtension = Some 10, RangeNorm = Some (41 / 500),
       Filtered = Some \<lparr>px = 128, py = 0\<rparr>, NoiseSpeed = Some (153 / 2000),
       CooldownUntil = None\<rparr>"

definition prevB2 :: Prev where
  "prevB2 = \<lparr>prev_t = 1500, prev_left = limbB2, prev_right = limbRest2 (81 / 2000),
             calibrated = None, prevLeftShoulder = Some \<lparr>px = 100, py = 0\<rparr>,
             prevRightShoulder = Some \<lparr>px = 0, py = 0\<rparr>\<rparr>"

text \<open>The two strikes that \<open>frameD2\<close> proposes, and the one that \<open>frameA2\<close> proposes.\<close>

definition punchD2L :: Punch where
  "punchD2L = \<lparr>p_side = SideLeft, p_speed = 6, p_power = 21 / 5\<rparr>"

definition punchD2R :: Punch where
  "punchD2R = \<lparr>p_side = SideRight, p_speed = 8, p_power = 36 / 5\<rparr>"

definition punchA2 :: Punch where
  "punchA2 = \<lparr>p_side = SideLeft, p_speed = 4, p_power = 2\<rparr>"

text \<open>A second fast reach of both hands, 100 ms after \<open>frameD2\<close>.\<close>

definition frameD3 :: Frame where
  "frameD3 = frameAt 1200 [kpAt ''left_shoulder'' 100, kpAt ''right_shoulder'' 0,
                           kpAt ''left_wrist'' 410, kpAt ''right_wrist'' (- 410)]"

section \<open>Scoring and persistence\<close>

lemma clamped_index_valid:
  "arr \<noteq> [] \<Longrightarrow> nat (min (int (length arr) - 1) (max 0 k)) < length arr"
  by (cases arr) auto

text \<open>
  Claim C4, as stated, fails: on the history 0.4, 0.6, 0.9 the source's \<open>percentile\<close>
  takes index \<open>\<lfloor>0.9 * 2\<rfloor> = 1\<close> and returns 0.6, while the nearest-rank rule with
  \<open>round\<close> takes index 2 and returns 0.9.
\<close>

theorem C4_percentile_round_counterexample:
  "percentile [0.4, 0.6, 0.9] PERCENTILE = 0.6
   \<and> percentileNearestRank [0.4, 0.6, 0.9] PERCENTILE = 0.9
   \<and> percentile [0.4, 0.6, 0.9] PERCENTILE \<noteq> percentileNearestRank [0.4, 0.6, 0.9] PERCENTILE"
  by (simp add: percentile_def percentileNearestRank_def PERCENTILE_def round_def)

text \<open>
  Claim C4, amended: for every non-empty history of \<open>n\<close> strike powers the percentile is
  the element of the ascending sort at index \<open>\<lfloor>p * (n - 1)\<rfloor>\<close> (floor, not round),
  clamped to the valid index range, hence an element of the history; for an empty history
  the percentile is 0 and the baseline falls back to the maximum of the single-value set
  that holds the new power.
\<close>

theorem C4_percentile_floor_rank:
  "(arr \<noteq> [] \<longrightarrow>
      (let i = nat (min (int (length arr) - 1) (max 0 \<lfloor>p * (real (length arr) - 1)\<rfloor>))
       in i < length arr \<and> sorted (sort arr) \<and> percentile arr p = sort arr ! i
          \<and> percentile arr p \<in> set arr))
   \<and> percentile [] p = 0 \<and> baseline pw [] = Max {pw}"
proof -
  have "percentile arr p \<in> set arr" if ne: "arr \<noteq> []"
  proof -
    have "nat (min (int (length arr) - 1) (max 0 \<lfloor>p * (real (length arr) - 1)\<rfloor>))
            < length (sort arr)"
      using clamped_index_valid[OF ne] by simp
    then have "sort arr ! nat (min (int (length arr) - 1)
                 (max 0 \<lfloor>p * (real (length arr) - 1)\<rfloor>)) \<in> set (sort arr)"
      by (rule nth_mem)
    then show ?thesis using ne by (simp add: percentile_def Let_def)
  qed
  then show ?thesis
    using clamped_index_valid[of arr]
    by (simp add: percentile_def baseline_def maxWith_def Let_def)
qed

theorem C4_percentile_floor_rank_witness:
  "[0.4, 0.6, 0.9] \<noteq> ([] :: real list)
   \<and> percentile [0.4, 0.6, 0.9] PERCENTILE = sort [0.4, 0.6, 0.9] ! 1
   \<and> percentile [0.4, 0.6, 0.9] PERCENTILE \<in> set [0.4, 0.6, 0.9]
   \<and> baseline 0.7 [] = Max {0.7}"
  using C4_percentile_floor_rank[of "[0.4, 0.6, 0.9]" PERCENTILE "0.7"]
  by (simp add: Let_def PERCENTILE_def)

text \<open>
  On finite values the percent score on JavaScript numbers is the real-valued
  \<open>computePercent\<close>, and on all values it is \<^verbatim>\<open>NaN\<close> or a number between 0 and 150.
\<close>

lemma jsInsert_Num: "jsInsert (Num x) (map Num ys) = map Num (insort x ys)"
  by (induction ys) (auto simp: jsSub_def jsPositive_def)

lemma jsSort_Num: "jsSort (map Num xs) = map Num (sort xs)"
  by (induction xs) (simp_all add: jsSort_def sort_key_def jsInsert_Num)

lemma jsMax_Num: "foldr jsMax (map Num hist) (Num pw) = Num (foldr max hist pw)"
  by (induction hist) (simp_all add: jsMax_def)

lemma percentileJs_Num: "percentileJs (map Num hist) p = Num (percentile hist p)"
proof (cases "hist = []")
  case True
  then show ?thesis by (simp add: percentileJs_def percentile_def)
next
  case False
  have "nat (min (int (length hist) - 1) (max 0 \<lfloor>p * (real (length hist) - 1)\<rfloor>))
          < length (sort hist)"
    using clamped_index_valid[OF False] by simp
  then show ?thesis
    using False by (simp add: percentileJs_def percentile_def jsSort_Num Let_def)
qed

lemma jsnum_finite:
  "jsMax (Num a) (Num b) = Num (max a b)"
  "jsMin (Num a) (Num b) = Num (min a b)"
  "b \<noteq> 0 \<Longrightarrow> jsDiv (Num a) (Num b) = Num (a / b)"
  "jsMul (Num a) (Num b) = Num (a * b)"
  "jsRound (Num a) = Num (of_int (round a))"
  "jsTruthy (Num a) = (a \<noteq> 0)"
  by (simp_all add: jsMax_def jsMin_def jsDiv_def jsMul_def jsRound_def jsTruthy_def)

lemma baselineJs_finite:
  "(if jsTruthy (percentileJs (map Num hist) PERCENTILE)
    then percentileJs (map Num hist) PERCENTILE
    else foldr jsMax (map Num hist) (Num pw)) = Num (baseline pw hist)"
  by (simp add: percentileJs_Num jsMax_Num jsnum_finite(6) baseline_def maxWith_def Let_def)

lemma computePercentJs_finite:
  "computePercentJs (Num pw) (map Num hist) = Num (of_int (computePercent pw hist))"
proof -
  have "0 < max 0.001 (baseline pw hist)" by (simp add: less_max_iff_disj)
  then have b: "max 0.001 (baseline pw hist) \<noteq> 0" by simp
  have "computePercentJs (Num pw) (map Num hist)
          = jsMax (Num 0) (jsMin (Num 150)
              (jsRound (jsMul (jsDiv (Num pw) (Num (max 0.001 (baseline pw hist)))) (Num 100))))"
    unfolding computePercentJs_def Let_def baselineJs_finite jsnum_finite(1) ..
  also have "\<dots> = Num (max 0 (min 150 (of_int (round (pw / max 0.001 (baseline pw hist) * 100)))))"
    unfolding jsnum_finite(3)[OF b] jsnum_finite(4) jsnum_finite(5) jsnum_finite(2)
      jsnum_finite(1) ..
  also have "\<dots> = Num (of_int (computePercent pw hist))"
    by (simp add: computePercent_def Let_def)
  finally show ?thesis .
qed

lemma computePercent_range: "0 \<le> computePercent pw hist \<and> computePercent pw hist \<le> 150"
  by (simp add: computePercent_def Let_def)

lemma clamp_cases:
  "jsMax (Num 0) (jsMin (Num 150) pct) = NaN
   \<or> (\<exists>r. jsMax (Num 0) (jsMin (Num 150) pct) = Num r \<and> 0 \<le> r \<and> r \<le> 150)"
  by (cases pct) (simp_all add: jsMax_def jsMin_def)

lemma computePercentJs_range:
  "computePercentJs pw hist = NaN
   \<or> (\<exists>r. computePercentJs pw hist = Num r \<and> 0 \<le> r \<and> r \<le> 150)"
  unfolding computePercentJs_def Let_def by (rule clamp_cases)


text \<open>
  Claim C9: a record saved at time \<open>T\<close> and loaded by a freshly mounted component at
  \<open>T + d\<close>. When \<open>d\<close> is less than 30 minutes each restored history is the saved one
  without its first \<open>length - 50\<close> entries: it has \<open>min 50 length\<close> entries, the saved
  history is some older entries followed by it, and it is the saved history itself when
  that has at most 50 entries. When \<open>d\<close> is 30 minutes or more the record is ignored and
  both histories are empty.
\<close>

theorem C9_history_round_trip:
  "(let e' = hydrate (T + d) (initEngine (localStorage (saveHistory T e)))
    in (d < 30 * 60 * 1000 \<longrightarrow>
          leftHistory e' = drop (length (leftHistory e) - 50) (leftHistory e)
          \<and> rightHistory e' = drop (length (rightHistory e) - 50) (rightHistory e)
          \<and> length (leftHistory e') = min 50 (length (leftHistory e))
          \<and> length (rightHistory e') = min 50 (length (rightHistory e))
          \<and> leftHistory e = take (length (leftHistory e) - 50) (leftHistory e) @ leftHistory e'
          \<and> rightHistory e
              = take (length (rightHistory e) - 50) (rightHistory e) @ rightHistory e')
       \<and> (d < 30 * 60 * 1000 \<longrightarrow> length (leftHistory e) \<le> 50 \<longrightarrow>
            leftHistory e' = leftHistory e)
       \<and> (d < 30 * 60 * 1000 \<longrightarrow> length (rightHistory e) \<le> 50 \<longrightarrow>
            rightHistory e' = rightHistory e)
       \<and> (d \<ge> 30 * 60 * 1000 \<longrightarrow> leftHistory e' = [] \<and> rightHistory e' = []))"
  by (simp add: hydrate_def saveHistory_def initEngine_def HISTORY_SIZE_def sliceLast_def
        Let_def min_def)

text \<open>
  Claim C9 on a left history of 52 entries, the powers 10 to 61 in this order, and the
  right history 0.4, 0.6, 0.9: ten minutes after the save the left history comes back as
  the 50 powers 12 to 61 and the right one unchanged; 31 minutes after the save both are
  empty.
\<close>

theorem C9_history_round_trip_witness:
  "(let e = (initEngine None)\<lparr>leftHistory := map real [10..<62],
                              rightHistory := [0.4, 0.6, 0.9]\<rparr>
    in length (leftHistory e) = 52
       \<and> leftHistory (hydrate (1000 + 600000) (initEngine (localStorage (saveHistory 1000 e))))
           = map real [12..<62]
       \<and> length (leftHistory (hydrate (1000 + 600000)
            (initEngine (localStorage (saveHistory 1000 e))))) = 50
       \<and> rightHistory (hydrate (1000 + 600000)
            (initEngine (localStorage (saveHistory 1000 e)))) = [0.4, 0.6, 0.9]
       \<and> leftHistory (hydrate (1000 + 1860000)
            (initEngine (localStorage (saveHistory 1000 e)))) = []
       \<and> rightHistory (hydrate (1000 + 1860000)
            (initEngine (localStorage (saveHistory 1000 e)))) = [])"
  using C9_history_round_trip[of 1000 600000
          "(initEngine None)\<lparr>leftHistory := map real [10..<62],
                              rightHistory := [0.4, 0.6, 0.9]\<rparr>"]
        C9_history_round_trip[of 1000 1860000
          "(initEngine None)\<lparr>leftHistory := map real [10..<62],
                              rightHistory := [0.4, 0.6, 0.9]\<rparr>"]
  by (simp add: Let_def drop_map)

section \<open>One limb on one frame\<close>

lemma updateMaxExt_clamp: "updateMaxExt mf d nrm r m0 \<ge> r + nrm * 0.04"
  by (simp add: updateMaxExt_def Let_def)

lemma limbStable_punch:
  "lo_punch (limbStable s now nrm cur d r0 m0 sp sf mf mb L) = Some p \<Longrightarrow>
     p_side p = s \<and> \<not> truthyBool (PunchDetected L)
     \<and> \<not> (case CooldownUntil L of Some c \<Rightarrow> c | None \<Rightarrow> 0) > now
     \<and> CooldownUntil (lo_limb (limbStable s now nrm cur d r0 m0 sp sf mf mb L)) = Some (now + 250)
     \<and> PunchDetected (lo_limb (limbStable s now nrm cur d r0 m0 sp sf mf mb L)) = Some True"
  by (auto simp: limbStable_def Let_def split: if_splits)

lemma limbStable_cooldown_kept:
  "lo_punch (limbStable s now nrm cur d r0 m0 sp sf mf mb L) = None \<Longrightarrow>
     CooldownUntil (lo_limb (limbStable s now nrm cur d r0 m0 sp sf mf mb L)) = CooldownUntil L"
  by (auto simp: limbStable_def Let_def split: if_splits)

lemma limbStable_ext_defined:
  "\<exists>r m. RestExtension (lo_limb (limbStable s now nrm cur d r0 m0 sp sf mf mb L)) = Some r \<and>
   MaxExtension (lo_limb (limbStable s now nrm cur d r0 m0 sp sf mf mb L)) = Some m \<and> m \<ge> r + nrm * 0.04"
proof -
  let ?r = "updateRest mf sf ((case NoiseSpeed L of Some n \<Rightarrow> n | None \<Rightarrow> 0.05) * 0.9 + sp * 0.1) d r0"
  have 1: "RestExtension (lo_limb (limbStable s now nrm cur d r0 m0 sp sf mf mb L)) = Some ?r"
    by (simp add: limbStable_def Let_def)
  have 2: "MaxExtension (lo_limb (limbStable s now nrm cur d r0 m0 sp sf mf mb L))
             = Some (updateMaxExt mf d nrm ?r m0)"
    by (simp add: limbStable_def Let_def)
  show ?thesis using 1 2 updateMaxExt_clamp[of ?r nrm mf d m0] by blast
qed

lemma processHand_punch:
  "lo_punch (processHand s now dt nrm st sh hand L) = Some p \<Longrightarrow>
     p_side p = s \<and> st \<and> \<not> truthyBool (PunchDetected L)
     \<and> \<not> (case CooldownUntil L of Some c \<Rightarrow> c | None \<Rightarrow> 0) > now
     \<and> CooldownUntil (lo_limb (processHand s now dt nrm st sh hand L)) = Some (now + 250)
     \<and> PunchDetected (lo_limb (processHand s now dt nrm st sh hand L)) = Some True"
  unfolding processHand_def Let_def
  by (auto dest!: limbStable_punch split: if_splits)

lemma processHand_cooldown_kept:
  "lo_punch (processHand s now dt nrm st sh hand L) = None \<Longrightarrow>
     CooldownUntil (lo_limb (processHand s now dt nrm st sh hand L)) = CooldownUntil L"
  unfolding processHand_def Let_def
  by (auto dest!: limbStable_cooldown_kept split: if_splits)

lemma processHand_stable_ext:
  "st \<Longrightarrow> \<exists>r m. RestExtension (lo_limb (processHand s now dt nrm st sh hand L)) = Some r \<and>
   MaxExtension (lo_limb (processHand s now dt nrm st sh hand L)) = Some m \<and> m \<ge> r + nrm * 0.04"
  unfolding processHand_def Let_def using limbStable_ext_defined by simp

lemma processHand_extInv:
  assumes "1 \<le> nrm" "extInv L"
  shows "extInv (lo_limb (processHand s now dt nrm st sh hand L))"
proof (cases st)
  case True
  from processHand_stable_ext[OF True, of s now dt nrm sh hand L]
  obtain r m where "RestExtension (lo_limb (processHand s now dt nrm st sh hand L)) = Some r"
     "MaxExtension (lo_limb (processHand s now dt nrm st sh hand L)) = Some m" "m \<ge> r + nrm * 0.04"
    by blast
  then show ?thesis using assms(1) by (simp add: extInv_def)
next
  case False
  then show ?thesis using assms(2) by (simp add: processHand_def Let_def extInv_def)
qed

section \<open>The structure of a frame\<close>

lemma limbOf_setLimb: "limbOf s (setLimb s' l p) = (if s = s' then l else limbOf s p)"
  by (cases s; cases s') (simp_all add: limbOf_def setLimb_def)

lemma setLimb_fields:
  "calibrated (setLimb s l p) = calibrated p"
  "prev_t (setLimb s l p) = prev_t p"
  "prev_left (setLimb s l p) = (if s = SideLeft then l else prev_left p)"
  "prev_right (setLimb s l p) = (if s = SideRight then l else prev_right p)"
  by (cases s; simp add: setLimb_def)+

lemma applyOut_fields:
  "prev (applyOut s out e) = setLimb s (lo_limb out) (prev e)"
  "leftHistory (applyOut s out e) = leftHistory e"
  "rightHistory (applyOut s out e) = rightHistory e"
  "localStorage (applyOut s out e) = localStorage e"
  "calibrationStatus (applyOut s out e) = calibrationStatus e"
  "calibrationStatusRef (applyOut s out e) = calibrationStatusRef e"
  "st_total (leftStats (applyOut s out e)) = st_total (leftStats e)"
  "st_total (rightStats (applyOut s out e)) = st_total (rightStats e)"
  by (cases s; simp add: applyOut_def setStats_def setDebug_def Let_def split: option.splits prod.splits)+

lemma updateCalibration_fields:
  "prev_left (prev (updateCalibration e)) = prev_left (prev e)"
  "prev_right (prev (updateCalibration e)) = prev_right (prev e)"
  "prev_t (prev (updateCalibration e)) = prev_t (prev e)"
  "leftHistory (updateCalibration e) = leftHistory e"
  "rightHistory (updateCalibration e) = rightHistory e"
  "leftStats (updateCalibration e) = leftStats e"
  "rightStats (updateCalibration e) = rightStats e"
  by (simp_all add: updateCalibration_def setCalibrationStatusSafe_def Let_def)

lemma limbOf_updateCalibration: "limbOf s (prev (updateCalibration e)) = limbOf s (prev e)"
  by (cases s) (simp_all add: limbOf_def updateCalibration_fields)

lemma arbitrate_single: "arbitrate [p] = [p]"
  by (simp add: arbitrate_def)

lemma arbitrate_pair: "arbitrate [pl, pr] = [if p_power pr > p_power pl then pr else pl]"
  by (simp add: arbitrate_def)

lemma limbsPass_cases:
  "limbsPass fr e ls rs =
     (let c = frameCtx fr (prev e) ls rs;
          e0 = e\<lparr>prev := (prev e)\<lparr>prevLeftShoulder := Some (pointOf ls),
                                   prevRightShoulder := Some (pointOf rs)\<rparr>\<rparr>
      in case sideOut c SideLeft (prev_left (prev e)) of
           None \<Rightarrow> (Some ReferenceError, e0, [])
         | Some oL \<Rightarrow>
            (case sideOut c SideRight (prev_right (prev e)) of
               None \<Rightarrow> (Some ReferenceError, applyOut SideLeft oL e0, punchList oL)
             | Some oR \<Rightarrow> (None, applyOut SideRight oR (applyOut SideLeft oL e0),
                         punchList oL @ punchList oR)))"
  by (simp add: limbsPass_def sideIteration_def Let_def limbOf_def applyOut_fields setLimb_def punchList_def
        split: option.splits prod.splits)

lemma computePunches_early:
  assumes "shouldersOk fr = None"
  shows "proposals fr e = []" "fst (computePunches fr e) = None"
    "\<exists>r. snd (computePunches fr e) = e\<lparr>leftDebug := shouldersDebug r,
        rightDebug := shouldersDebug r, prev := (prev e)\<lparr>prev_t := f_now fr\<rparr>\<rparr>"
  using assms
  by (auto simp: shouldersOk_def proposals_def computePunches_def Let_def
        split: option.splits if_splits)

lemma computePunches_ref_left:
  assumes "shouldersOk fr = Some (ls, rs)"
    and "sideOut (frameCtx fr (prev e) ls rs) SideLeft (prev_left (prev e)) = None"
  shows "proposals fr e = []"
    "computePunches fr e = (Some ReferenceError, withShoulders ls rs e)"
  using assms
  by (auto simp: shouldersOk_def proposals_def computePunches_def limbsPass_cases withShoulders_def Let_def
        split: option.splits if_splits)

lemma computePunches_ref_right:
  assumes "shouldersOk fr = Some (ls, rs)"
    and "sideOut (frameCtx fr (prev e) ls rs) SideLeft (prev_left (prev e)) = Some oL"
    and "sideOut (frameCtx fr (prev e) ls rs) SideRight (prev_right (prev e)) = None"
  shows "proposals fr e = punchList oL"
    "computePunches fr e = (Some ReferenceError, applyOut SideLeft oL (withShoulders ls rs e))"
  using assms
  by (auto simp: shouldersOk_def proposals_def computePunches_def limbsPass_cases withShoulders_def Let_def
        split: option.splits if_splits)

lemma computePunches_both:
  assumes "shouldersOk fr = Some (ls, rs)"
    and "sideOut (frameCtx fr (prev e) ls rs) SideLeft (prev_left (prev e)) = Some oL"
    and "sideOut (frameCtx fr (prev e) ls rs) SideRight (prev_right (prev e)) = Some oR"
  shows "proposals fr e = punchList oL @ punchList oR"
    "computePunches fr e =
       (let e2 = updateCalibration (applyOut SideRight oR (applyOut SideLeft oL (withShoulders ls rs e)));
            pp = punchList oL @ punchList oR
        in case (if length pp > 0 then acceptPunches (frameCtx fr (prev e) ls rs) (arbitrate pp) e2
                 else (None, e2)) of
             (Some err, e3) \<Rightarrow> (Some err, e3)
           | (None, e3) \<Rightarrow> (None, e3\<lparr>prev := (prev e3)\<lparr>prev_t := f_now fr\<rparr>\<rparr>))"
  using assms
  by (auto simp: shouldersOk_def proposals_def computePunches_def limbsPass_cases withShoulders_def Let_def
        split: option.splits if_splits)

lemma pushHistory_fields:
  "prev (pushHistory dn s pw e) = prev e"
  "leftStats (pushHistory dn s pw e) = leftStats e"
  "rightStats (pushHistory dn s pw e) = rightStats e"
  "calibrationStatus (pushHistory dn s pw e) = calibrationStatus e"
  "calibrationStatusRef (pushHistory dn s pw e) = calibrationStatusRef e"
  "historyOf s' (pushHistory dn s pw e)
     = (if s' = s then pushBounded HISTORY_SIZE pw (historyOf s' e) else historyOf s' e)"
  by (cases s; cases s'; simp add: pushHistory_def saveHistory_def historyOf_def)+

lemma sideOut_SomeD:
  "sideOut c s L = Some out \<Longrightarrow>
     \<exists>sh hand. out = processHand s (c_now c) (c_dt c) (c_norm c) (c_torsoStable c) sh hand L"
  by (auto simp: sideOut_def Let_def split: option.splits)

lemma sideOut_punch:
  assumes "sideOut c s L = Some out" "lo_punch out = Some p"
  shows "p_side p = s" "c_torsoStable c" "\<not> truthyBool (PunchDetected L)"
    "\<not> (case CooldownUntil L of Some x \<Rightarrow> x | None \<Rightarrow> 0) > c_now c"
    "CooldownUntil (lo_limb out) = Some (c_now c + 250)"
    "PunchDetected (lo_limb out) = Some True"
proof -
  from sideOut_SomeD[OF assms(1)] obtain sh hand
    where out: "out = processHand s (c_now c) (c_dt c) (c_norm c) (c_torsoStable c) sh hand L"
    by blast
  note * = processHand_punch[OF assms(2)[unfolded out]]
  show "p_side p = s" "c_torsoStable c" "\<not> truthyBool (PunchDetected L)"
    "\<not> (case CooldownUntil L of Some x \<Rightarrow> x | None \<Rightarrow> 0) > c_now c"
    "CooldownUntil (lo_limb out) = Some (c_now c + 250)"
    "PunchDetected (lo_limb out) = Some True"
    using * by (auto simp: out)
qed

lemma sideOut_quiet:
  assumes "sideOut c s L = Some out" "lo_punch out = None"
  shows "CooldownUntil (lo_limb out) = CooldownUntil L"
proof -
  from sideOut_SomeD[OF assms(1)] obtain sh hand
    where out: "out = processHand s (c_now c) (c_dt c) (c_norm c) (c_torsoStable c) sh hand L"
    by blast
  show ?thesis using processHand_cooldown_kept[OF assms(2)[unfolded out]] by (simp add: out)
qed

lemma punchesOf_punchList:
  assumes "sideOut c s L = Some out"
  shows "punchesOf s' (punchList out) = (if s' = s then punchList out else [])"
  using assms sideOut_punch(1)[OF assms]
  by (auto simp: punchesOf_def punchList_def split: option.splits)

lemma acceptPunch_error:
  "fst (acceptPunch c w e) \<noteq> None \<Longrightarrow> acceptPunch c w e = (Some TypeError, e)"
  by (auto simp: acceptPunch_def Let_def split: option.splits)

lemma acceptPunch_ok_fields:
  assumes "fst (acceptPunch c w e) = None"
  shows "\<exists>d. prev (snd (acceptPunch c w e))
           = setLimb (p_side w) (raiseMax d (limbOf (p_side w) (prev e))) (prev e)"
    "calibrationStatus (snd (acceptPunch c w e)) = calibrationStatus e"
    "calibrationStatusRef (snd (acceptPunch c w e)) = calibrationStatusRef e"
    "st_total (statsOf s (snd (acceptPunch c w e)))
       = st_total (statsOf s e) + (if s = p_side w then 1 else 0)"
    "historyOf s (snd (acceptPunch c w e))
       = (if s = p_side w then pushBounded HISTORY_SIZE (p_power w) (historyOf s e)
          else historyOf s e)"
  using assms
  by (cases s; cases "p_side w";
      auto simp: acceptPunch_def Let_def pushHistory_fields setStats_def statsOf_def historyOf_def
        raiseMax_def maxOr0_def pushHistory_def saveHistory_def
        split: option.splits)+

lemma foldl_pick_mem:
  "foldl (\<lambda>best current. if P current best then current else best) x xs \<in> set (x # xs)"
proof (induction xs arbitrary: x)
  case Nil
  then show ?case by simp
next
  case (Cons y ys)
  show ?case using Cons.IH[of "if P y x then y else x"] by (auto split: if_splits)
qed

lemma arbitrate_winner:
  assumes "pp \<noteq> []"
  shows "\<exists>w. w \<in> set pp \<and> arbitrate pp = [w]"
proof (cases pp)
  case Nil
  with assms show ?thesis by simp
next
  case (Cons x xs)
  have "foldl (\<lambda>best current. if p_power current > p_power best then current else best) x xs
          \<in> set (x # xs)"
    by (rule foldl_pick_mem[where P = "\<lambda>c b. p_power c > p_power b"])
  then show ?thesis using Cons by (cases xs) (auto simp: arbitrate_def)
qed

lemma acceptPunches_single: "acceptPunches c [w] e = acceptPunch c w e"
  by (simp split: prod.splits option.splits)

lemma limbOf_prev_t: "limbOf s (p\<lparr>prev_t := x\<rparr>) = limbOf s p"
  by (cases s) (simp_all add: limbOf_def)

lemma limbOf_withShoulders: "limbOf s (prev (withShoulders ls rs e)) = limbOf s (prev e)"
  by (cases s) (simp_all add: limbOf_def withShoulders_def)

lemma limbOf_sides: "prev_left p = limbOf SideLeft p" "prev_right p = limbOf SideRight p"
  by (simp_all add: limbOf_def)

text \<open>The final state of a frame on which both limbs were processed.\<close>

lemma computePunches_both_final:
  assumes ok: "shouldersOk fr = Some (ls, rs)"
    and oL: "sideOut (frameCtx fr (prev e) ls rs) SideLeft (prev_left (prev e)) = Some oL"
    and oR: "sideOut (frameCtx fr (prev e) ls rs) SideRight (prev_right (prev e)) = Some oR"
  defines "e2 \<equiv> updateCalibration (applyOut SideRight oR (applyOut SideLeft oL (withShoulders ls rs e)))"
  shows "(proposals fr e = [] \<and> computePunches fr e = (None, e2\<lparr>prev := (prev e2)\<lparr>prev_t := f_now fr\<rparr>\<rparr>))
       \<or> (\<exists>w. w \<in> set (proposals fr e) \<and> arbitrate (proposals fr e) = [w]
             \<and> ((fst (acceptPunch (frameCtx fr (prev e) ls rs) w e2) \<noteq> None
                   \<and> computePunches fr e = (Some TypeError, e2))
                \<or> (fst (acceptPunch (frameCtx fr (prev e) ls rs) w e2) = None
                   \<and> computePunches fr e
                       = (None, (snd (acceptPunch (frameCtx fr (prev e) ls rs) w e2))
                                 \<lparr>prev := (prev (snd (acceptPunch (frameCtx fr (prev e) ls rs) w e2)))
                                     \<lparr>prev_t := f_now fr\<rparr>\<rparr>))))"
proof (cases "proposals fr e = []")
  case True
  then show ?thesis
    using computePunches_both[OF ok oL oR] by (simp add: Let_def e2_def)
next
  case False
  then obtain w where w: "w \<in> set (proposals fr e)" "arbitrate (proposals fr e) = [w]"
    using arbitrate_winner by blast
  have pp: "punchList oL @ punchList oR = proposals fr e"
    using computePunches_both(1)[OF ok oL oR] by simp
  have cp: "computePunches fr e =
       (case acceptPunch (frameCtx fr (prev e) ls rs) w e2 of
             (Some err, e3) \<Rightarrow> (Some err, e3)
           | (None, e3) \<Rightarrow> (None, e3\<lparr>prev := (prev e3)\<lparr>prev_t := f_now fr\<rparr>\<rparr>))"
    using computePunches_both(2)[OF ok oL oR] False w(2)
    unfolding Let_def pp e2_def[symmetric]
    by (simp add: acceptPunches_single del: acceptPunches.simps)
  show ?thesis
  proof (cases "fst (acceptPunch (frameCtx fr (prev e) ls rs) w e2) = None")
    case True
    then show ?thesis using w cp False by (auto split: prod.splits option.splits)
  next
    case F2: False
    from acceptPunch_error[OF F2] show ?thesis using w cp False F2 by auto
  qed
qed

lemma limbOf_applyOut:
  "limbOf s (prev (applyOut s' out e)) = (if s = s' then lo_limb out else limbOf s (prev e))"
  by (simp add: applyOut_fields limbOf_setLimb)

lemma punchList_empty: "punchList out = [] \<longleftrightarrow> lo_punch out = None"
  by (simp add: punchList_def split: option.splits)

lemma punchesOf_append: "punchesOf s (xs @ ys) = punchesOf s xs @ punchesOf s ys"
  by (simp add: punchesOf_def)

lemma c_now_frameCtx: "c_now (frameCtx fr p ls rs) = f_now fr"
  by (simp add: frameCtx_def Let_def)

lemma c_norm_frameCtx: "1 \<le> c_norm (frameCtx fr p ls rs)"
  by (simp add: frameCtx_def Let_def)

lemma processedOut_sideOut:
  assumes "processedOut fr e s = Some out"
  shows "\<exists>ls rs. shouldersOk fr = Some (ls, rs)
           \<and> sideOut (frameCtx fr (prev e) ls rs) s (limbOf s (prev e)) = Some out"
  using assms
  by (cases s) (auto simp: processedOut_def limbOf_def split: option.splits)

lemma frame_limb_skipped:
  assumes "processedOut fr e s = None"
  shows "punchesOf s (proposals fr e) = []"
    "limbOf s (prev (snd (computePunches fr e))) = limbOf s (prev e)"
proof -
  have "punchesOf s (proposals fr e) = []
      \<and> limbOf s (prev (snd (computePunches fr e))) = limbOf s (prev e)"
  proof (cases "shouldersOk fr")
    case None
    from computePunches_early[OF None, of e] show ?thesis
      by (auto simp: punchesOf_def limbOf_prev_t)
  next
    case (Some lr)
    then obtain ls rs where ok: "shouldersOk fr = Some (ls, rs)" by (cases lr) auto
    let ?c = "frameCtx fr (prev e) ls rs"
    show ?thesis
    proof (cases "sideOut ?c SideLeft (prev_left (prev e))")
      case None
      from computePunches_ref_left[OF ok None] show ?thesis
        by (simp add: punchesOf_def limbOf_withShoulders)
    next
      case oL: (Some oL)
      with assms ok have s: "s = SideRight"
        and oR: "sideOut ?c SideRight (prev_right (prev e)) = None"
        by (cases s; simp add: processedOut_def)+
      from computePunches_ref_right[OF ok oL oR] show ?thesis
        by (simp add: s limbOf_applyOut limbOf_withShoulders punchesOf_punchList[OF oL])
    qed
  qed
  then show "punchesOf s (proposals fr e) = []"
    "limbOf s (prev (snd (computePunches fr e))) = limbOf s (prev e)" by simp_all
qed

lemma frame_limb_processed:
  assumes po: "processedOut fr e s = Some out"
  shows "punchesOf s (proposals fr e) = punchList out"
    "limbOf s (prev (snd (computePunches fr e))) = lo_limb out
     \<or> (lo_punch out \<noteq> None
        \<and> (\<exists>d. limbOf s (prev (snd (computePunches fr e))) = raiseMax d (lo_limb out)))"
proof -
  from po obtain ls rs oL where ok: "shouldersOk fr = Some (ls, rs)"
    and oL: "sideOut (frameCtx fr (prev e) ls rs) SideLeft (prev_left (prev e)) = Some oL"
    by (auto simp: processedOut_def split: option.splits)
  let ?c = "frameCtx fr (prev e) ls rs"
  have "punchesOf s (proposals fr e) = punchList out
     \<and> (limbOf s (prev (snd (computePunches fr e))) = lo_limb out
     \<or> (lo_punch out \<noteq> None
        \<and> (\<exists>d. limbOf s (prev (snd (computePunches fr e))) = raiseMax d (lo_limb out))))"
  proof (cases "sideOut ?c SideRight (prev_right (prev e))")
    case None
    with po ok oL have s: "s = SideLeft" and out: "out = oL"
      by (cases s; simp add: processedOut_def)+
    from computePunches_ref_right[OF ok oL None] show ?thesis
      by (simp add: s out limbOf_applyOut punchesOf_punchList[OF oL])
  next
    case oR: (Some oR)
    define e2 where "e2 = updateCalibration
      (applyOut SideRight oR (applyOut SideLeft oL (withShoulders ls rs e)))"
    have pp: "proposals fr e = punchList oL @ punchList oR"
      by (rule computePunches_both(1)[OF ok oL oR])
    have outs: "out = (case s of SideLeft \<Rightarrow> oL | SideRight \<Rightarrow> oR)"
      using po ok oL oR by (cases s) (simp_all add: processedOut_def)
    have pun: "punchesOf s (proposals fr e) = punchList out"
      using outs by (cases s)
        (simp_all add: pp punchesOf_append punchesOf_punchList[OF oL] punchesOf_punchList[OF oR])
    have l2: "limbOf s (prev e2) = lo_limb out"
      using outs by (cases s)
        (simp_all add: e2_def limbOf_updateCalibration limbOf_applyOut)
    from computePunches_both_final[OF ok oL oR, folded e2_def]
    consider (quiet) "computePunches fr e = (None, e2\<lparr>prev := (prev e2)\<lparr>prev_t := f_now fr\<rparr>\<rparr>)"
      | (err) "computePunches fr e = (Some TypeError, e2)"
      | (acc) w where "w \<in> set (proposals fr e)" "fst (acceptPunch ?c w e2) = None"
          "computePunches fr e = (None, (snd (acceptPunch ?c w e2))
               \<lparr>prev := (prev (snd (acceptPunch ?c w e2)))\<lparr>prev_t := f_now fr\<rparr>\<rparr>)"
      by blast
    then show ?thesis
    proof cases
      case quiet
      then show ?thesis using pun l2 by (simp add: limbOf_prev_t)
    next
      case err
      then show ?thesis using pun l2 by simp
    next
      case acc
      from acceptPunch_ok_fields(1)[OF acc(2)] obtain d where
        d: "prev (snd (acceptPunch ?c w e2))
             = setLimb (p_side w) (raiseMax d (limbOf (p_side w) (prev e2))) (prev e2)"
        by blast
      show ?thesis
      proof (cases "s = p_side w")
        case True
        have "w \<in> set (punchesOf s (proposals fr e))"
          using acc(1) True by (simp add: punchesOf_def)
        then have "lo_punch out \<noteq> None"
          using pun by (auto simp: punchList_def split: option.splits)
        moreover have "limbOf s (prev (snd (computePunches fr e))) = raiseMax d (lo_limb out)"
          using acc(3) d True l2 by (simp add: limbOf_prev_t limbOf_setLimb)
        ultimately show ?thesis using pun by blast
      next
        case False
        have "limbOf s (prev (snd (computePunches fr e))) = lo_limb out"
          using acc(3) d False l2 by (simp add: limbOf_prev_t limbOf_setLimb)
        then show ?thesis using pun by blast
      qed
    qed
  qed
  then show "punchesOf s (proposals fr e) = punchList out"
    "limbOf s (prev (snd (computePunches fr e))) = lo_limb out
     \<or> (lo_punch out \<noteq> None
        \<and> (\<exists>d. limbOf s (prev (snd (computePunches fr e))) = raiseMax d (lo_limb out)))"
    by simp_all
qed

section \<open>Cooldown, arbitration and the dropped limb\<close>

lemma raiseMax_fields:
  "CooldownUntil (raiseMax d L) = CooldownUntil L"
  "PunchDetected (raiseMax d L) = PunchDetected L"
  "RestExtension (raiseMax d L) = RestExtension L"
  "RangeNorm (raiseMax d L) = RangeNorm L"
  "MaxExtension (raiseMax d L) = Some (max (maxOr0 L) d)"
  by (simp_all add: raiseMax_def)

lemma proposal_fields:
  assumes "p \<in> set (proposals fr e)"
  shows "CooldownUntil (limbOf (p_side p) (prev (snd (computePunches fr e))))
           = Some (f_now fr + 250)"
    and "PunchDetected (limbOf (p_side p) (prev (snd (computePunches fr e)))) = Some True"
    and "\<not> truthyBool (PunchDetected (limbOf (p_side p) (prev e)))"
    and "\<not> (case CooldownUntil (limbOf (p_side p) (prev e)) of Some x \<Rightarrow> x | None \<Rightarrow> 0)
             > f_now fr"
proof -
  let ?s = "p_side p"
  have mem: "p \<in> set (punchesOf ?s (proposals fr e))"
    using assms by (simp add: punchesOf_def)
  then obtain out where po: "processedOut fr e ?s = Some out"
    using frame_limb_skipped(1)[of fr e ?s] by (cases "processedOut fr e ?s") auto
  from frame_limb_processed(1)[OF po] mem have lp: "lo_punch out = Some p"
    by (auto simp: punchList_def split: option.splits)
  from processedOut_sideOut[OF po] obtain ls rs where
    so: "sideOut (frameCtx fr (prev e) ls rs) ?s (limbOf ?s (prev e)) = Some out" by blast
  note sp = sideOut_punch[OF so lp, unfolded c_now_frameCtx]
  from frame_limb_processed(2)[OF po]
  show "CooldownUntil (limbOf ?s (prev (snd (computePunches fr e)))) = Some (f_now fr + 250)"
    and "PunchDetected (limbOf ?s (prev (snd (computePunches fr e)))) = Some True"
    using sp(5,6) by (auto simp: raiseMax_fields)
  show "\<not> truthyBool (PunchDetected (limbOf ?s (prev e)))" by (rule sp(3))
  show "\<not> (case CooldownUntil (limbOf ?s (prev e)) of Some x \<Rightarrow> x | None \<Rightarrow> 0) > f_now fr"
    by (rule sp(4))
qed

lemma quiet_cooldown:
  assumes "punchesOf s (proposals fr e) = []"
  shows "CooldownUntil (limbOf s (prev (snd (computePunches fr e))))
           = CooldownUntil (limbOf s (prev e))"
proof (cases "processedOut fr e s")
  case None
  then show ?thesis using frame_limb_skipped(2) by simp
next
  case (Some out)
  from frame_limb_processed(1)[OF Some] assms have lp: "lo_punch out = None"
    by (simp add: punchList_def split: option.splits)
  from processedOut_sideOut[OF Some] obtain ls rs where
    so: "sideOut (frameCtx fr (prev e) ls rs) s (limbOf s (prev e)) = Some out" by blast
  from frame_limb_processed(2)[OF Some] lp sideOut_quiet[OF so lp]
  show ?thesis by auto
qed

lemma cooldown_blocks:
  assumes "CooldownUntil (limbOf s (prev e)) = Some c" "f_now fr < c"
  shows "\<forall>p \<in> set (proposals fr e). p_side p \<noteq> s"
    and "CooldownUntil (limbOf s (prev (snd (computePunches fr e)))) = Some c"
proof -
  show *: "\<forall>p \<in> set (proposals fr e). p_side p \<noteq> s"
  proof
    fix p assume p: "p \<in> set (proposals fr e)"
    show "p_side p \<noteq> s" using proposal_fields(4)[OF p] assms by auto
  qed
  then have "punchesOf s (proposals fr e) = []"
    by (auto simp: punchesOf_def filter_empty_conv)
  from quiet_cooldown[OF this] assms(1)
  show "CooldownUntil (limbOf s (prev (snd (computePunches fr e)))) = Some c" by simp
qed

lemma active_blocks:
  assumes "PunchDetected (limbOf s (prev e)) = Some True"
  shows "\<forall>p \<in> set (proposals fr e). p_side p \<noteq> s"
proof
  fix p assume p: "p \<in> set (proposals fr e)"
  show "p_side p \<noteq> s" using proposal_fields(3)[OF p] assms by (auto simp: truthyBool_def)
qed

lemma cooldown_blocks_run:
  assumes "CooldownUntil (limbOf s (prev e)) = Some c" "\<forall>fr \<in> set frs. f_now fr < c"
  shows "(\<forall>pp \<in> set (runProposals frs e). \<forall>p \<in> set pp. p_side p \<noteq> s)
         \<and> CooldownUntil (limbOf s (prev (run frs e))) = Some c"
  using assms
proof (induction frs arbitrary: e)
  case Nil
  then show ?case by simp
next
  case (Cons fr frs)
  have now: "f_now fr < c" using Cons.prems(2) by simp
  note b = cooldown_blocks[OF Cons.prems(1) now]
  from Cons.IH[OF b(2)] Cons.prems(2) b(1) show ?case by simp
qed

text \<open>
  Claim C7: every limb that proposes a strike in a frame has \<^verbatim>\<open>cooldownUntil\<close> equal
  to \<open>now + 250\<close> after that frame, and proposes nothing in any sequence of later frames
  whose timestamps are all earlier than \<open>now + 250\<close>. In general a limb whose
  \<^verbatim>\<open>cooldownUntil\<close> is \<open>c\<close> proposes nothing in frames with timestamps earlier than
  \<open>c\<close>, and its \<^verbatim>\<open>cooldownUntil\<close> stays \<open>c\<close> over them.
\<close>

theorem C7_cooldown:
  "(\<forall>p \<in> set (proposals fr e).
      CooldownUntil (limbOf (p_side p) (prev (snd (computePunches fr e)))) = Some (f_now fr + 250)
      \<and> ((\<forall>fr' \<in> set frs. f_now fr' < f_now fr + 250) \<longrightarrow>
           (\<forall>pp \<in> set (runProposals frs (snd (computePunches fr e))).
              \<forall>q \<in> set pp. p_side q \<noteq> p_side p)))
   \<and> (\<forall>c. CooldownUntil (limbOf s (prev e)) = Some c \<and> (\<forall>fr' \<in> set frs. f_now fr' < c) \<longrightarrow>
          (\<forall>pp \<in> set (runProposals frs e). \<forall>q \<in> set pp. p_side q \<noteq> s)
          \<and> CooldownUntil (limbOf s (prev (run frs e))) = Some c)"
proof (intro conjI ballI allI impI)
  fix p assume p: "p \<in> set (proposals fr e)"
  show c: "CooldownUntil (limbOf (p_side p) (prev (snd (computePunches fr e)))) = Some (f_now fr + 250)"
    by (rule proposal_fields(1)[OF p])
  fix pp q assume "\<forall>fr' \<in> set frs. f_now fr' < f_now fr + 250"
    and "pp \<in> set (runProposals frs (snd (computePunches fr e)))" "q \<in> set pp"
  then show "p_side q \<noteq> p_side p"
    using cooldown_blocks_run[OF c] by blast
next
  fix c pp q
  assume "CooldownUntil (limbOf s (prev e)) = Some c \<and> (\<forall>fr' \<in> set frs. f_now fr' < c)"
    and "pp \<in> set (runProposals frs e)" "q \<in> set pp"
  then show "p_side q \<noteq> s" using cooldown_blocks_run[of s e c frs] by blast
next
  fix c
  assume "CooldownUntil (limbOf s (prev e)) = Some c \<and> (\<forall>fr' \<in> set frs. f_now fr' < c)"
  then show "CooldownUntil (limbOf s (prev (run frs e))) = Some c"
    using cooldown_blocks_run[of s e c frs] by blast
qed

lemma counts_applyOut:
  "st_total (statsOf s (applyOut s' out e)) = st_total (statsOf s e)"
  "historyOf s (applyOut s' out e) = historyOf s e"
  by (cases s; simp add: statsOf_def historyOf_def applyOut_fields)+

lemma counts_updateCalibration:
  "statsOf s (updateCalibration e) = statsOf s e"
  "historyOf s (updateCalibration e) = historyOf s e"
  by (cases s; simp add: statsOf_def historyOf_def updateCalibration_fields)+

lemma counts_withShoulders:
  "statsOf s (withShoulders ls rs e) = statsOf s e"
  "historyOf s (withShoulders ls rs e) = historyOf s e"
  by (cases s; simp add: statsOf_def historyOf_def withShoulders_def)+

lemma counts_prev:
  "statsOf s (e\<lparr>prev := p\<rparr>) = statsOf s e"
  "historyOf s (e\<lparr>prev := p\<rparr>) = historyOf s e"
  "statsOf s (e\<lparr>leftDebug := d1, rightDebug := d2, prev := p\<rparr>) = statsOf s e"
  "historyOf s (e\<lparr>leftDebug := d1, rightDebug := d2, prev := p\<rparr>) = historyOf s e"
  by (cases s; simp add: statsOf_def historyOf_def)+

lemma counts_debug:
  "statsOf s (e\<lparr>leftDebug := d\<rparr>) = statsOf s e"
  "statsOf s (e\<lparr>rightDebug := d\<rparr>) = statsOf s e"
  "historyOf s (e\<lparr>leftDebug := d\<rparr>) = historyOf s e"
  "historyOf s (e\<lparr>rightDebug := d\<rparr>) = historyOf s e"
  by (cases s; simp add: statsOf_def historyOf_def)+

lemmas counts_simps = counts_debug counts_applyOut counts_updateCalibration counts_withShoulders counts_prev

lemma accepted_nil: "proposals fr e = [] \<Longrightarrow> accepted fr e = []"
  by (simp add: accepted_def split: option.splits)

lemma accepted_not_reached: "processedOut fr e SideRight = None \<Longrightarrow> accepted fr e = []"
  by (simp add: accepted_def)

lemma accepted_winner:
  "processedOut fr e SideRight \<noteq> None \<Longrightarrow> proposals fr e \<noteq> []
   \<Longrightarrow> accepted fr e = arbitrate (proposals fr e)"
  by (auto simp: accepted_def)

text \<open>
  When both limbs are processed, the frame function runs the scoring loop on the accepted
  strikes of the frame, and on nothing else.
\<close>

lemma frame_scores_accepted:
  assumes ok: "shouldersOk fr = Some (ls, rs)"
    and oL: "sideOut (frameCtx fr (prev e) ls rs) SideLeft (prev_left (prev e)) = Some oL"
    and oR: "sideOut (frameCtx fr (prev e) ls rs) SideRight (prev_right (prev e)) = Some oR"
  shows "computePunches fr e =
       (case acceptPunches (frameCtx fr (prev e) ls rs) (accepted fr e)
               (updateCalibration
                  (applyOut SideRight oR (applyOut SideLeft oL (withShoulders ls rs e)))) of
          (Some err, e3) \<Rightarrow> (Some err, e3)
        | (None, e3) \<Rightarrow> (None, e3\<lparr>prev := (prev e3)\<lparr>prev_t := f_now fr\<rparr>\<rparr>))"
proof -
  have po: "processedOut fr e SideRight = Some oR"
    using ok oL oR by (simp add: processedOut_def)
  have pp: "punchList oL @ punchList oR = proposals fr e"
    using computePunches_both(1)[OF ok oL oR] by simp
  show ?thesis
  proof (cases "proposals fr e = []")
    case True
    then have "accepted fr e = []" by (rule accepted_nil)
    then show ?thesis
      using computePunches_both(2)[OF ok oL oR] True unfolding Let_def pp by simp
  next
    case False
    then have "accepted fr e = arbitrate (proposals fr e)"
      using po by (simp add: accepted_winner)
    then show ?thesis
      using computePunches_both(2)[OF ok oL oR] False unfolding Let_def pp by simp
  qed
qed

text \<open>What a frame adds to the strike counts and histories.\<close>

lemma frame_counts:
  "(\<exists>w. accepted fr e = [w] \<and> fst (computePunches fr e) = None
        \<and> (\<forall>s. st_total (statsOf s (snd (computePunches fr e)))
                  = st_total (statsOf s e) + (if s = p_side w then 1 else 0))
        \<and> (\<forall>s. historyOf s (snd (computePunches fr e))
                  = (if s = p_side w then pushBounded HISTORY_SIZE (p_power w) (historyOf s e)
                     else historyOf s e)))
   \<or> ((accepted fr e = [] \<or> fst (computePunches fr e) \<noteq> None)
        \<and> (\<forall>s. st_total (statsOf s (snd (computePunches fr e))) = st_total (statsOf s e))
        \<and> (\<forall>s. historyOf s (snd (computePunches fr e)) = historyOf s e))"
proof (cases "shouldersOk fr")
  case None
  from computePunches_early[OF None, of e] show ?thesis
    by (auto simp: accepted_nil counts_simps)
next
  case (Some lr)
  then obtain ls rs where ok: "shouldersOk fr = Some (ls, rs)" by (cases lr) auto
  let ?c = "frameCtx fr (prev e) ls rs"
  show ?thesis
  proof (cases "sideOut ?c SideLeft (prev_left (prev e))")
    case None
    from computePunches_ref_left[OF ok None] show ?thesis
      by (simp add: counts_simps)
  next
    case oL: (Some oL)
    show ?thesis
    proof (cases "sideOut ?c SideRight (prev_right (prev e))")
      case None
      from computePunches_ref_right[OF ok oL None] show ?thesis
        by (simp add: counts_simps)
    next
      case oR: (Some oR)
      define e2 where "e2 = updateCalibration
        (applyOut SideRight oR (applyOut SideLeft oL (withShoulders ls rs e)))"
      have c2: "st_total (statsOf s e2) = st_total (statsOf s e)"
        "historyOf s e2 = historyOf s e" for s
        by (simp_all add: e2_def counts_simps)
      from computePunches_both_final[OF ok oL oR, folded e2_def]
      consider (quiet) "proposals fr e = []"
          "computePunches fr e = (None, e2\<lparr>prev := (prev e2)\<lparr>prev_t := f_now fr\<rparr>\<rparr>)"
        | (err) "computePunches fr e = (Some TypeError, e2)"
        | (acc) w where "arbitrate (proposals fr e) = [w]" "w \<in> set (proposals fr e)"
            "fst (acceptPunch ?c w e2) = None"
            "computePunches fr e = (None, (snd (acceptPunch ?c w e2))
                 \<lparr>prev := (prev (snd (acceptPunch ?c w e2)))\<lparr>prev_t := f_now fr\<rparr>\<rparr>)"
        by blast
      then show ?thesis
      proof cases
        case quiet
        then show ?thesis by (simp add: accepted_nil counts_simps c2)
      next
        case err
        then show ?thesis by (simp add: c2)
      next
        case acc
        have "processedOut fr e SideRight = Some oR"
          using ok oL oR by (simp add: processedOut_def)
        then have "accepted fr e = [w]" using acc(1,2) by (auto simp: accepted_def Let_def)
        then show ?thesis
          using acc(4) acceptPunch_ok_fields(4,5)[OF acc(3)] by (simp add: counts_simps c2)
      qed
    qed
  qed
qed

lemma proposals_split:
  "proposals fr e = punchesOf SideLeft (proposals fr e) @ punchesOf SideRight (proposals fr e)"
proof (cases "shouldersOk fr")
  case None
  from computePunches_early[OF None, of e] show ?thesis by (simp add: punchesOf_def)
next
  case (Some lr)
  then obtain ls rs where ok: "shouldersOk fr = Some (ls, rs)" by (cases lr) auto
  let ?c = "frameCtx fr (prev e) ls rs"
  show ?thesis
  proof (cases "sideOut ?c SideLeft (prev_left (prev e))")
    case None
    from computePunches_ref_left[OF ok None] show ?thesis by (simp add: punchesOf_def)
  next
    case oL: (Some oL)
    show ?thesis
    proof (cases "sideOut ?c SideRight (prev_right (prev e))")
      case None
      from computePunches_ref_right[OF ok oL None] show ?thesis
        by (simp add: punchesOf_punchList[OF oL])
    next
      case oR: (Some oR)
      from computePunches_both(1)[OF ok oL oR] show ?thesis
        by (simp add: punchesOf_append punchesOf_punchList[OF oL] punchesOf_punchList[OF oR])
    qed
  qed
qed

lemma punchesOf_short: "length (punchesOf s (proposals fr e)) \<le> 1"
proof (cases "processedOut fr e s")
  case None
  then show ?thesis using frame_limb_skipped(1) by simp
next
  case (Some out)
  then show ?thesis using frame_limb_processed(1)
    by (simp add: punchList_def split: option.splits)
qed

lemma punchesOf_side: "p \<in> set (punchesOf s pp) \<Longrightarrow> p_side p = s"
  by (simp add: punchesOf_def)

lemma proposals_decomp:
  obtains xl xr where "proposals fr e = xl @ xr" "length xl \<le> 1" "length xr \<le> 1"
    "\<forall>p \<in> set xl. p_side p = SideLeft" "\<forall>p \<in> set xr. p_side p = SideRight"
proof (rule that[OF proposals_split punchesOf_short punchesOf_short])
  show "\<forall>p \<in> set (punchesOf SideLeft (proposals fr e)). p_side p = SideLeft"
    by (simp add: punchesOf_def)
  show "\<forall>p \<in> set (punchesOf SideRight (proposals fr e)). p_side p = SideRight"
    by (simp add: punchesOf_def)
qed

lemma short_list: "length xs \<le> 1 \<Longrightarrow> xs = [] \<or> (\<exists>a. xs = [a])"
  by (cases xs) auto

lemma proposals_forms:
  "proposals fr e = []
   \<or> (\<exists>a. proposals fr e = [a] \<and> p_side a = SideLeft)
   \<or> (\<exists>b. proposals fr e = [b] \<and> p_side b = SideRight)
   \<or> (\<exists>a b. proposals fr e = [a, b] \<and> p_side a = SideLeft \<and> p_side b = SideRight)"
proof -
  obtain xl xr where x: "proposals fr e = xl @ xr" "length xl \<le> 1" "length xr \<le> 1"
    "\<forall>p \<in> set xl. p_side p = SideLeft" "\<forall>p \<in> set xr. p_side p = SideRight"
    by (rule proposals_decomp)
  from short_list[OF x(2)] short_list[OF x(3)]
  consider "xl = []" "xr = []" | a where "xl = [a]" "xr = []"
    | b where "xl = []" "xr = [b]" | a b where "xl = [a]" "xr = [b]"
    by blast
  then show ?thesis
  proof cases
    case 1
    then show ?thesis using x(1) by simp
  next
    case 2
    then show ?thesis using x(1,4) by simp
  next
    case 3
    then show ?thesis using x(1,5) by simp
  next
    case 4
    then show ?thesis using x(1,4,5) by simp
  qed
qed

lemma proposals_sides:
  "length (proposals fr e) \<le> 2 \<and> distinct (map p_side (proposals fr e))"
  using proposals_forms[of fr e] by (elim disjE exE conjE) simp_all

lemma proposals_pair_sides:
  assumes "proposals fr e = [pl, pr]"
  shows "p_side pl = SideLeft \<and> p_side pr = SideRight"
  using proposals_forms[of fr e] assms by (elim disjE exE conjE) simp_all

text \<open>
  A frame that returns and has a proposal has processed both limbs.
\<close>

lemma returns_processed:
  assumes ret: "fst (computePunches fr e) = None" and ne: "proposals fr e \<noteq> []"
  shows "processedOut fr e SideRight \<noteq> None"
proof (cases "shouldersOk fr")
  case None
  from computePunches_early(1)[OF None, of e] ne show ?thesis by simp
next
  case (Some lr)
  then obtain ls rs where ok: "shouldersOk fr = Some (ls, rs)" by (cases lr) auto
  let ?c = "frameCtx fr (prev e) ls rs"
  show ?thesis
  proof (cases "sideOut ?c SideLeft (prev_left (prev e))")
    case None
    from computePunches_ref_left(1)[OF ok None] ne show ?thesis by simp
  next
    case oL: (Some oL)
    show ?thesis
    proof (cases "sideOut ?c SideRight (prev_right (prev e))")
      case None
      from computePunches_ref_right(2)[OF ok oL None] ret show ?thesis by simp
    next
      case (Some oR)
      then show ?thesis using ok oL by (simp add: processedOut_def)
    qed
  qed
qed

text \<open>
  The arbitration on the frames that return: at most one strike is accepted; a single
  proposal is accepted, and of two proposals the right one when its power is the higher,
  else the left one; the count of a side grows by one, and its history by the accepted
  power, exactly for the side of the accepted strike. On a frame that throws nothing is
  counted (\<open>frame_counts\<close>).
\<close>

lemma arbitration_on_return:
  assumes ret: "fst (computePunches fr e) = None"
  shows "length (accepted fr e) \<le> 1"
    and "proposals fr e = [p] \<Longrightarrow> accepted fr e = [p]"
    and "proposals fr e = [pl, pr]
         \<Longrightarrow> accepted fr e = [if p_power pr > p_power pl then pr else pl]"
    and "st_total (statsOf s (snd (computePunches fr e)))
           = st_total (statsOf s e) + (if s \<in> p_side ` set (accepted fr e) then 1 else 0)"
    and "historyOf s (snd (computePunches fr e))
           = (if s \<in> p_side ` set (accepted fr e)
              then pushBounded HISTORY_SIZE (p_power (hd (accepted fr e))) (historyOf s e)
              else historyOf s e)"
proof -
  show "length (accepted fr e) \<le> 1"
    using frame_counts[of fr e] ret by auto
  show "accepted fr e = [p]" if "proposals fr e = [p]"
    using returns_processed[OF ret] that by (simp add: accepted_winner arbitrate_single)
  show "accepted fr e = [if p_power pr > p_power pl then pr else pl]"
    if "proposals fr e = [pl, pr]"
    using returns_processed[OF ret] that by (simp add: accepted_winner arbitrate_pair)
  show "st_total (statsOf s (snd (computePunches fr e)))
           = st_total (statsOf s e) + (if s \<in> p_side ` set (accepted fr e) then 1 else 0)"
    using frame_counts[of fr e] ret by auto
  show "historyOf s (snd (computePunches fr e))
           = (if s \<in> p_side ` set (accepted fr e)
              then pushBounded HISTORY_SIZE (p_power (hd (accepted fr e))) (historyOf s e)
              else historyOf s e)"
    using frame_counts[of fr e] ret by auto
qed

text \<open>
  Claim C10: when both limbs propose in a frame, the limb with the lower power (the right
  one when the powers are equal) is dropped. After the frame it is Active and its
  \<^verbatim>\<open>cooldownUntil\<close> is \<open>now + 250\<close>, its strike count and its history are unchanged,
  it proposes nothing in the next frame whatever its timestamp, and nothing in any
  sequence of frames with timestamps earlier than \<open>now + 250\<close>. A limb that is Active
  when a frame starts proposes nothing in that frame.
\<close>

theorem C10_dropped_limb:
  "(\<forall>pl pr. proposals fr e = [pl, pr] \<longrightarrow>
      (let e' = snd (computePunches fr e);
           w = (if p_power pr > p_power pl then pr else pl);
           d = (if p_power pr > p_power pl then pl else pr)
       in accepted fr e = [w] \<and> p_side d \<noteq> p_side w
          \<and> PunchDetected (limbOf (p_side d) (prev e')) = Some True
          \<and> CooldownUntil (limbOf (p_side d) (prev e')) = Some (f_now fr + 250)
          \<and> st_total (statsOf (p_side d) e') = st_total (statsOf (p_side d) e)
          \<and> historyOf (p_side d) e' = historyOf (p_side d) e
          \<and> (\<forall>fr'. \<forall>q \<in> set (proposals fr' e'). p_side q \<noteq> p_side d)
          \<and> (\<forall>frs. (\<forall>fr' \<in> set frs. f_now fr' < f_now fr + 250) \<longrightarrow>
                (\<forall>pp \<in> set (runProposals frs e'). \<forall>q \<in> set pp. p_side q \<noteq> p_side d))))
   \<and> (\<forall>s fr'. PunchDetected (limbOf s (prev e)) = Some True \<longrightarrow>
         (\<forall>q \<in> set (proposals fr' e). p_side q \<noteq> s))"
proof (intro conjI allI impI)
  fix pl pr assume pp: "proposals fr e = [pl, pr]"
  define e' where "e' = snd (computePunches fr e)"
  define w where "w = (if p_power pr > p_power pl then pr else pl)"
  define d where "d = (if p_power pr > p_power pl then pl else pr)"
  from proposals_pair_sides[OF pp] have sides: "p_side pl = SideLeft" "p_side pr = SideRight"
    by simp_all
  have "processedOut fr e SideRight \<noteq> None"
  proof
    assume "processedOut fr e SideRight = None"
    from frame_limb_skipped(1)[OF this] show False
      using pp sides by (simp add: punchesOf_def)
  qed
  then have acc: "accepted fr e = [w]"
    using pp by (simp add: accepted_winner arbitrate_pair w_def)
  have dw: "p_side d \<noteq> p_side w" using sides by (simp add: d_def w_def)
  have dm: "d \<in> set (proposals fr e)" using pp by (simp add: d_def)
  have act: "PunchDetected (limbOf (p_side d) (prev e')) = Some True"
    unfolding e'_def by (rule proposal_fields(2)[OF dm])
  have cd: "CooldownUntil (limbOf (p_side d) (prev e')) = Some (f_now fr + 250)"
    unfolding e'_def by (rule proposal_fields(1)[OF dm])
  have cnt: "st_total (statsOf (p_side d) e') = st_total (statsOf (p_side d) e)"
    "historyOf (p_side d) e' = historyOf (p_side d) e"
    using frame_counts[of fr e] acc dw unfolding e'_def by auto
  have nxt: "\<forall>fr'. \<forall>q \<in> set (proposals fr' e'). p_side q \<noteq> p_side d"
    using active_blocks[OF act] by blast
  have seq: "\<forall>frs. (\<forall>fr' \<in> set frs. f_now fr' < f_now fr + 250) \<longrightarrow>
                (\<forall>pp \<in> set (runProposals frs e'). \<forall>q \<in> set pp. p_side q \<noteq> p_side d)"
    using cooldown_blocks_run[OF cd] by blast
  show "let e' = snd (computePunches fr e);
           w = (if p_power pr > p_power pl then pr else pl);
           d = (if p_power pr > p_power pl then pl else pr)
       in accepted fr e = [w] \<and> p_side d \<noteq> p_side w
          \<and> PunchDetected (limbOf (p_side d) (prev e')) = Some True
          \<and> CooldownUntil (limbOf (p_side d) (prev e')) = Some (f_now fr + 250)
          \<and> st_total (statsOf (p_side d) e') = st_total (statsOf (p_side d) e)
          \<and> historyOf (p_side d) e' = historyOf (p_side d) e
          \<and> (\<forall>fr'. \<forall>q \<in> set (proposals fr' e'). p_side q \<noteq> p_side d)
          \<and> (\<forall>frs. (\<forall>fr' \<in> set frs. f_now fr' < f_now fr + 250) \<longrightarrow>
                (\<forall>pp \<in> set (runProposals frs e'). \<forall>q \<in> set pp. p_side q \<noteq> p_side d))"
    unfolding Let_def e'_def[symmetric] w_def[symmetric] d_def[symmetric]
    by (intro conjI acc dw act cd cnt nxt seq)
next
  fix s fr' assume "PunchDetected (limbOf s (prev e)) = Some True"
  from active_blocks[OF this] show "\<forall>q \<in> set (proposals fr' e). p_side q \<noteq> s" by blast
qed

section \<open>The extension invariant\<close>

lemma raiseMax_extInv:
  assumes "extInv L" "RestExtension L \<noteq> None"
  shows "extInv (raiseMax d L)"
  using assms by (auto simp: extInv_def raiseMax_def maxOr0_def split: option.splits)

lemma sideOut_extInv:
  assumes "sideOut c s L = Some out" "1 \<le> c_norm c" "extInv L"
  shows "extInv (lo_limb out)"
proof -
  from sideOut_SomeD[OF assms(1)] obtain sh hand
    where out: "out = processHand s (c_now c) (c_dt c) (c_norm c) (c_torsoStable c) sh hand L"
    by blast
  show ?thesis unfolding out by (rule processHand_extInv[OF assms(2,3)])
qed

lemma sideOut_stable_ext:
  assumes "sideOut c s L = Some out" "c_torsoStable c"
  shows "\<exists>r m. RestExtension (lo_limb out) = Some r \<and> MaxExtension (lo_limb out) = Some m
           \<and> m \<ge> r + c_norm c * 0.04"
proof -
  from sideOut_SomeD[OF assms(1)] obtain sh hand
    where out: "out = processHand s (c_now c) (c_dt c) (c_norm c) (c_torsoStable c) sh hand L"
    by blast
  show ?thesis unfolding out by (rule processHand_stable_ext[OF assms(2)])
qed

lemma frame_extInv:
  assumes "extInv (limbOf s (prev e))"
  shows "extInv (limbOf s (prev (snd (computePunches fr e))))"
proof (cases "processedOut fr e s")
  case None
  then show ?thesis using frame_limb_skipped(2) assms by simp
next
  case (Some out)
  from processedOut_sideOut[OF Some] obtain ls rs where
    so: "sideOut (frameCtx fr (prev e) ls rs) s (limbOf s (prev e)) = Some out" by blast
  have inv: "extInv (lo_limb out)"
    by (rule sideOut_extInv[OF so c_norm_frameCtx assms])
  from frame_limb_processed(2)[OF Some]
  show ?thesis
  proof
    assume "limbOf s (prev (snd (computePunches fr e))) = lo_limb out"
    then show ?thesis using inv by simp
  next
    assume a: "lo_punch out \<noteq> None
        \<and> (\<exists>d. limbOf s (prev (snd (computePunches fr e))) = raiseMax d (lo_limb out))"
    then obtain p d where p: "lo_punch out = Some p"
      and d: "limbOf s (prev (snd (computePunches fr e))) = raiseMax d (lo_limb out)" by auto
    from sideOut_stable_ext[OF so sideOut_punch(2)[OF so p]]
    have "RestExtension (lo_limb out) \<noteq> None" by auto
    from raiseMax_extInv[OF inv this] d show ?thesis by simp
  qed
qed

lemma run_snoc: "run (frs @ gs) e = run gs (run frs e)"
  by (induction frs arbitrary: e) simp_all

lemma run_extInv:
  assumes "extInv (limbOf s (prev e))"
  shows "extInv (limbOf s (prev (run frs e)))"
  using assms by (induction frs arbitrary: e) (simp_all add: frame_extInv)

lemma init_extInv: "extInv (limbOf s (prev (initEngine st)))"
  by (cases s) (simp_all add: limbOf_def initEngine_def emptyLimb_def extInv_def)

lemma frame_stable_ext:
  assumes ok: "shouldersOk fr = Some (ls, rs)"
    and st: "c_torsoStable (frameCtx fr (prev e) ls rs)"
    and po: "processedOut fr e s = Some out"
  shows "\<exists>r m. RestExtension (limbOf s (prev (snd (computePunches fr e)))) = Some r
           \<and> MaxExtension (limbOf s (prev (snd (computePunches fr e)))) = Some m
           \<and> m \<ge> r + c_norm (frameCtx fr (prev e) ls rs) * 0.04"
proof -
  from processedOut_sideOut[OF po] ok have
    so: "sideOut (frameCtx fr (prev e) ls rs) s (limbOf s (prev e)) = Some out" by auto
  from sideOut_stable_ext[OF so st] obtain r m where
    rm: "RestExtension (lo_limb out) = Some r" "MaxExtension (lo_limb out) = Some m"
      "m \<ge> r + c_norm (frameCtx fr (prev e) ls rs) * 0.04" by blast
  from frame_limb_processed(2)[OF po]
  show ?thesis
  proof
    assume "limbOf s (prev (snd (computePunches fr e))) = lo_limb out"
    then show ?thesis using rm by simp
  next
    assume "lo_punch out \<noteq> None
        \<and> (\<exists>d. limbOf s (prev (snd (computePunches fr e))) = raiseMax d (lo_limb out))"
    then obtain d where
      d: "limbOf s (prev (snd (computePunches fr e))) = raiseMax d (lo_limb out)" by auto
    have "max m d \<ge> r + c_norm (frameCtx fr (prev e) ls rs) * 0.04" using rm(3) by simp
    then show ?thesis using rm(1,2) by (simp add: d raiseMax_fields maxOr0_def)
  qed
qed

text \<open>
  Claim C6, amended: in every state reachable from the initial one, and across every
  frame on every path (unstable torso, missing hand, post-strike raise), the rest and the
  maximum extension of a limb are stored together and maxExtension is at least
  restExtension + 0.04, so the range never collapses. After a frame with a stable torso
  on which the limb is processed, maxExtension is at least restExtension + norm * 0.04
  for that frame's \<open>norm\<close>, also after the post-strike raise.
\<close>

theorem C6_extension_floor:
  "(\<forall>s. extInv (limbOf s (prev (run frs (initEngine st)))))
   \<and> (\<forall>s. extInv (limbOf s (prev e)) \<longrightarrow> extInv (limbOf s (prev (snd (computePunches fr e)))))
   \<and> (\<forall>ls rs s out. shouldersOk fr = Some (ls, rs)
          \<and> c_torsoStable (frameCtx fr (prev e) ls rs) \<and> processedOut fr e s = Some out \<longrightarrow>
          (\<exists>r m. RestExtension (limbOf s (prev (snd (computePunches fr e)))) = Some r
             \<and> MaxExtension (limbOf s (prev (snd (computePunches fr e)))) = Some m
             \<and> m \<ge> r + c_norm (frameCtx fr (prev e) ls rs) * 0.04))"
  using run_extInv[OF init_extInv] frame_extInv frame_stable_ext by blast

lemma updateCalibration_latched:
  "truthyBool (calibrated (prev e)) \<Longrightarrow> updateCalibration e = e"
  by (simp add: updateCalibration_def)

section \<open>The calibration status\<close>

lemma setCalibrationStatusSafe_fields:
  "calibrationStatusRef (setCalibrationStatusSafe n e) = n"
  "calibrationStatus e = calibrationStatusRef e \<Longrightarrow>
     calibrationStatus (setCalibrationStatusSafe n e) = n"
  "prev (setCalibrationStatusSafe n e) = prev e"
  by (simp_all add: setCalibrationStatusSafe_def)

lemma updateCalibration_open:
  assumes "\<not> truthyBool (calibrated (prev e))"
  shows "calibrationStatusRef (updateCalibration e)
           = statusFor (rangeOr0 SideLeft e) (rangeOr0 SideRight e)"
    and "calibrationStatus e = calibrationStatusRef e \<Longrightarrow>
           calibrationStatus (updateCalibration e) = calibrationStatusRef (updateCalibration e)"
    and "calibrationStatusRef (updateCalibration e) = Complete \<Longrightarrow>
           truthyBool (calibrated (prev (updateCalibration e)))"
proof -
  show 1: "calibrationStatusRef (updateCalibration e)
           = statusFor (rangeOr0 SideLeft e) (rangeOr0 SideRight e)"
    using assms
    by (simp add: updateCalibration_def setCalibrationStatusSafe_fields statusFor_def
          rangeOr0_def limbOf_def Let_def)
  show "calibrationStatus (updateCalibration e) = calibrationStatusRef (updateCalibration e)"
    if "calibrationStatus e = calibrationStatusRef e"
    using assms that
    by (simp add: updateCalibration_def setCalibrationStatusSafe_fields Let_def)
  show "truthyBool (calibrated (prev (updateCalibration e)))"
    if "calibrationStatusRef (updateCalibration e) = Complete"
  proof -
    have "statusFor (rangeOr0 SideLeft e) (rangeOr0 SideRight e) = Complete"
      using 1 that by simp
    then have "rangeOr0 SideLeft e > 0.18 \<or> rangeOr0 SideRight e > 0.18"
      by (simp add: statusFor_def split: if_splits)
    then show ?thesis using assms
      by (simp add: updateCalibration_def setCalibrationStatusSafe_fields rangeOr0_def
            limbOf_def truthyBool_def Let_def)
  qed
qed

lemma updateCalibration_calInv: "calInv e \<Longrightarrow> calInv (updateCalibration e)"
  using updateCalibration_latched[of e] updateCalibration_open[of e]
  by (cases "truthyBool (calibrated (prev e))") (auto simp: calInv_def)

lemma cal_applyOut:
  "calibrated (prev (applyOut s out e)) = calibrated (prev e)"
  by (simp add: applyOut_fields setLimb_fields)

lemma cal_withShoulders:
  "calibrated (prev (withShoulders ls rs e)) = calibrated (prev e)"
  "calibrationStatusRef (withShoulders ls rs e) = calibrationStatusRef e"
  "calibrationStatus (withShoulders ls rs e) = calibrationStatus e"
  by (simp_all add: withShoulders_def)

lemmas cal_simps = cal_applyOut cal_withShoulders applyOut_fields(5,6)

text \<open>The calibration fields after a frame.\<close>

lemma frame_calibration:
  "(processedOut fr e SideRight = None
      \<and> calibrated (prev (snd (computePunches fr e))) = calibrated (prev e)
      \<and> calibrationStatusRef (snd (computePunches fr e)) = calibrationStatusRef e
      \<and> calibrationStatus (snd (computePunches fr e)) = calibrationStatus e)
   \<or> (\<exists>e1. processedOut fr e SideRight \<noteq> None
         \<and> calibrated (prev e1) = calibrated (prev e)
         \<and> calibrationStatusRef e1 = calibrationStatusRef e
         \<and> calibrationStatus e1 = calibrationStatus e
         \<and> (\<forall>s. RangeNorm (limbOf s (prev e1))
                  = RangeNorm (limbOf s (prev (snd (computePunches fr e)))))
         \<and> calibrated (prev (snd (computePunches fr e))) = calibrated (prev (updateCalibration e1))
         \<and> calibrationStatusRef (snd (computePunches fr e))
             = calibrationStatusRef (updateCalibration e1)
         \<and> calibrationStatus (snd (computePunches fr e))
             = calibrationStatus (updateCalibration e1))"
proof (cases "shouldersOk fr")
  case None
  from computePunches_early[OF None, of e] show ?thesis
    by (auto simp: processedOut_def None)
next
  case (Some lr)
  then obtain ls rs where ok: "shouldersOk fr = Some (ls, rs)" by (cases lr) auto
  let ?c = "frameCtx fr (prev e) ls rs"
  show ?thesis
  proof (cases "sideOut ?c SideLeft (prev_left (prev e))")
    case None
    from computePunches_ref_left[OF ok None] show ?thesis
      by (simp add: processedOut_def ok None cal_simps)
  next
    case oL: (Some oL)
    show ?thesis
    proof (cases "sideOut ?c SideRight (prev_right (prev e))")
      case None
      from computePunches_ref_right[OF ok oL None] show ?thesis
        by (simp add: processedOut_def ok oL None cal_simps)
    next
      case oR: (Some oR)
      define e1 where "e1 = applyOut SideRight oR (applyOut SideLeft oL (withShoulders ls rs e))"
      define e2 where "e2 = updateCalibration e1"
      have po: "processedOut fr e SideRight = Some oR" "processedOut fr e SideLeft = Some oL"
        by (simp_all add: processedOut_def ok oL oR)
      have c1: "calibrated (prev e1) = calibrated (prev e)"
        "calibrationStatusRef e1 = calibrationStatusRef e"
        "calibrationStatus e1 = calibrationStatus e"
        by (simp_all add: e1_def cal_simps)
      have l1: "limbOf SideLeft (prev e1) = lo_limb oL" "limbOf SideRight (prev e1) = lo_limb oR"
        by (simp_all add: e1_def limbOf_applyOut)
      have rn: "RangeNorm (limbOf s (prev e1))
                  = RangeNorm (limbOf s (prev (snd (computePunches fr e))))" for s
      proof (cases s)
        case SideLeft
        from frame_limb_processed(2)[OF po(2)] show ?thesis
          by (auto simp: SideLeft l1 raiseMax_fields)
      next
        case SideRight
        from frame_limb_processed(2)[OF po(1)] show ?thesis
          by (auto simp: SideRight l1 raiseMax_fields)
      qed
      from computePunches_both_final[OF ok oL oR, folded e1_def, folded e2_def]
      consider (quiet) "computePunches fr e = (None, e2\<lparr>prev := (prev e2)\<lparr>prev_t := f_now fr\<rparr>\<rparr>)"
        | (err) "computePunches fr e = (Some TypeError, e2)"
        | (acc) w where "fst (acceptPunch ?c w e2) = None"
            "computePunches fr e = (None, (snd (acceptPunch ?c w e2))
                 \<lparr>prev := (prev (snd (acceptPunch ?c w e2)))\<lparr>prev_t := f_now fr\<rparr>\<rparr>)"
        by blast
      then have fin: "calibrated (prev (snd (computePunches fr e))) = calibrated (prev e2)
         \<and> calibrationStatusRef (snd (computePunches fr e)) = calibrationStatusRef e2
         \<and> calibrationStatus (snd (computePunches fr e)) = calibrationStatus e2"
      proof cases
        case quiet
        then show ?thesis by simp
      next
        case err
        then show ?thesis by simp
      next
        case acc
        from acceptPunch_ok_fields(1)[OF acc(1)] obtain d where
          d: "prev (snd (acceptPunch ?c w e2))
               = setLimb (p_side w) (raiseMax d (limbOf (p_side w) (prev e2))) (prev e2)"
          by blast
        show ?thesis using acc(2) acceptPunch_ok_fields(2,3)[OF acc(1)]
          by (simp add: d setLimb_fields)
      qed
      show ?thesis
        using po(1) c1 rn fin unfolding e2_def by blast
    qed
  qed
qed

lemma frame_calInv:
  assumes "calInv e"
  shows "calInv (snd (computePunches fr e))"
  using frame_calibration[of fr e]
proof
  assume "processedOut fr e SideRight = None
      \<and> calibrated (prev (snd (computePunches fr e))) = calibrated (prev e)
      \<and> calibrationStatusRef (snd (computePunches fr e)) = calibrationStatusRef e
      \<and> calibrationStatus (snd (computePunches fr e)) = calibrationStatus e"
  then show ?thesis using assms by (simp add: calInv_def)
next
  assume "\<exists>e1. processedOut fr e SideRight \<noteq> None
         \<and> calibrated (prev e1) = calibrated (prev e)
         \<and> calibrationStatusRef e1 = calibrationStatusRef e
         \<and> calibrationStatus e1 = calibrationStatus e
         \<and> (\<forall>s. RangeNorm (limbOf s (prev e1))
                  = RangeNorm (limbOf s (prev (snd (computePunches fr e)))))
         \<and> calibrated (prev (snd (computePunches fr e))) = calibrated (prev (updateCalibration e1))
         \<and> calibrationStatusRef (snd (computePunches fr e))
             = calibrationStatusRef (updateCalibration e1)
         \<and> calibrationStatus (snd (computePunches fr e))
             = calibrationStatus (updateCalibration e1)"
  then obtain e1 where e1: "calibrated (prev e1) = calibrated (prev e)"
         "calibrationStatusRef e1 = calibrationStatusRef e"
         "calibrationStatus e1 = calibrationStatus e"
         "calibrated (prev (snd (computePunches fr e))) = calibrated (prev (updateCalibration e1))"
         "calibrationStatusRef (snd (computePunches fr e))
             = calibrationStatusRef (updateCalibration e1)"
         "calibrationStatus (snd (computePunches fr e))
             = calibrationStatus (updateCalibration e1)" by blast
  have "calInv e1" using assms e1(1-3) by (simp add: calInv_def)
  from updateCalibration_calInv[OF this] show ?thesis using e1(4-6) by (simp add: calInv_def)
qed

lemma frame_complete_stays:
  assumes "calInv e" "calibrationStatusRef e = Complete"
  shows "calibrationStatusRef (snd (computePunches fr e)) = Complete"
proof -
  have lat: "truthyBool (calibrated (prev e))" using assms by (simp add: calInv_def)
  from frame_calibration[of fr e] show ?thesis
  proof
    assume "processedOut fr e SideRight = None
      \<and> calibrated (prev (snd (computePunches fr e))) = calibrated (prev e)
      \<and> calibrationStatusRef (snd (computePunches fr e)) = calibrationStatusRef e
      \<and> calibrationStatus (snd (computePunches fr e)) = calibrationStatus e"
    then show ?thesis using assms(2) by simp
  next
    assume "\<exists>e1. processedOut fr e SideRight \<noteq> None
         \<and> calibrated (prev e1) = calibrated (prev e)
         \<and> calibrationStatusRef e1 = calibrationStatusRef e
         \<and> calibrationStatus e1 = calibrationStatus e
         \<and> (\<forall>s. RangeNorm (limbOf s (prev e1))
                  = RangeNorm (limbOf s (prev (snd (computePunches fr e)))))
         \<and> calibrated (prev (snd (computePunches fr e))) = calibrated (prev (updateCalibration e1))
         \<and> calibrationStatusRef (snd (computePunches fr e))
             = calibrationStatusRef (updateCalibration e1)
         \<and> calibrationStatus (snd (computePunches fr e))
             = calibrationStatus (updateCalibration e1)"
    then obtain e1 where e1: "calibrated (prev e1) = calibrated (prev e)"
         "calibrationStatusRef e1 = calibrationStatusRef e"
         "calibrationStatusRef (snd (computePunches fr e))
             = calibrationStatusRef (updateCalibration e1)" by blast
    have "updateCalibration e1 = e1" using lat e1(1) by (simp add: updateCalibration_latched)
    then show ?thesis using e1(2,3) assms(2) by simp
  qed
qed

lemma frame_status_tracks:
  assumes "\<not> truthyBool (calibrated (prev e))" "processedOut fr e SideRight \<noteq> None"
  shows "calibrationStatusRef (snd (computePunches fr e))
           = statusFor (rangeOr0 SideLeft (snd (computePunches fr e)))
                       (rangeOr0 SideRight (snd (computePunches fr e)))"
proof -
  from frame_calibration[of fr e] assms(2)
  obtain e1 where e1: "calibrated (prev e1) = calibrated (prev e)"
         "\<forall>s. RangeNorm (limbOf s (prev e1))
                  = RangeNorm (limbOf s (prev (snd (computePunches fr e))))"
         "calibrationStatusRef (snd (computePunches fr e))
             = calibrationStatusRef (updateCalibration e1)" by blast
  have "rangeOr0 s e1 = rangeOr0 s (snd (computePunches fr e))" for s
    using e1(2) by (simp add: rangeOr0_def)
  then show ?thesis
    using updateCalibration_open(1)[of e1] assms(1) e1(1,3) by simp
qed

lemma run_calInv: "calInv e \<Longrightarrow> calInv (run frs e)"
  by (induction frs arbitrary: e) (simp_all add: frame_calInv)

lemma run_complete_stays:
  "calInv e \<Longrightarrow> calibrationStatusRef e = Complete \<Longrightarrow> calibrationStatusRef (run frs e) = Complete"
  by (induction frs arbitrary: e) (simp_all add: frame_calInv frame_complete_stays)

lemma init_calInv: "calInv (initEngine st)"
  by (simp add: calInv_def initEngine_def)

text \<open>
  Claim C1, amended: for every input frame sequence, once the status is Complete it stays
  Complete, and the published status equals the status ref. While the engine is not yet
  calibrated, every frame on which both limbs are processed sets the status from the two
  stored ranges alone (Complete above 0.18, else Collecting above 0.08, else Waiting), so
  the status can return from Collecting to Waiting.
\<close>

theorem C1_complete_is_terminal:
  "(calibrationStatusRef (run frs (initEngine st)) = Complete \<longrightarrow>
      calibrationStatusRef (run (frs @ gs) (initEngine st)) = Complete)
   \<and> calibrationStatus (run frs (initEngine st)) = calibrationStatusRef (run frs (initEngine st))
   \<and> (\<not> truthyBool (calibrated (prev e)) \<and> processedOut fr e SideRight \<noteq> None \<longrightarrow>
        calibrationStatusRef (snd (computePunches fr e))
          = statusFor (rangeOr0 SideLeft (snd (computePunches fr e)))
                      (rangeOr0 SideRight (snd (computePunches fr e))))"
proof (intro conjI impI)
  assume "calibrationStatusRef (run frs (initEngine st)) = Complete"
  from run_complete_stays[OF run_calInv[OF init_calInv] this]
  show "calibrationStatusRef (run (frs @ gs) (initEngine st)) = Complete"
    by (simp add: run_snoc)
next
  show "calibrationStatus (run frs (initEngine st)) = calibrationStatusRef (run frs (initEngine st))"
    using run_calInv[OF init_calInv, of frs st] by (simp add: calInv_def)
next
  assume "\<not> truthyBool (calibrated (prev e)) \<and> processedOut fr e SideRight \<noteq> None"
  then show "calibrationStatusRef (snd (computePunches fr e))
          = statusFor (rangeOr0 SideLeft (snd (computePunches fr e)))
                      (rangeOr0 SideRight (snd (computePunches fr e)))"
    using frame_status_tracks by blast
qed

section \<open>Where the frame function returns\<close>

text \<open>
  When the wrist is absent or below the minimum score and the elbow is absent, a stored
  previous hand position is used as the hand keypoint, with score 0.
\<close>

lemma chooseHand_previous:
  assumes "wrist = None \<or> (\<exists>w. wrist = Some w \<and> scoreOr0 w < minWristScore)"
  shows "chooseHand wrist None (Some p)
           = Some \<lparr>kp_x = px p, kp_y = py p, kp_score = Some 0, kp_name = None,
                   kp_part = None\<rparr>"
  using assms by (auto simp: chooseHand_def)

lemma chooseHand_wrist:
  "scoreOr0 w \<ge> minWristScore \<Longrightarrow> chooseHand (Some w) elbow prevWrist = Some w"
  by (simp add: chooseHand_def)

lemma wrists_frameCtx:
  "c_lw (frameCtx fr p ls rs) = getKeypoint (f_keypoints fr) ''left_wrist''"
  "c_rw (frameCtx fr p ls rs) = getKeypoint (f_keypoints fr) ''right_wrist''"
  "c_le (frameCtx fr p ls rs) = getKeypoint (f_keypoints fr) ''left_elbow''"
  "c_re (frameCtx fr p ls rs) = getKeypoint (f_keypoints fr) ''right_elbow''"
  by (simp_all add: frameCtx_def Let_def)

lemma acceptPunch_returns:
  assumes "c_lw c \<noteq> None" "c_rw c \<noteq> None"
  shows "fst (acceptPunch c w e) = None"
  using assms by (cases "p_side w") (auto simp: acceptPunch_def Let_def split: option.splits)

text \<open>
  A frame in which both wrist keypoints are present with at least the minimum score is
  processed without an exception.
\<close>

lemma computePunches_returns_with_wrists:
  assumes lw: "getKeypoint (f_keypoints fr) ''left_wrist'' = Some lw"
      "scoreOr0 lw \<ge> minWristScore"
    and rw: "getKeypoint (f_keypoints fr) ''right_wrist'' = Some rw"
      "scoreOr0 rw \<ge> minWristScore"
  shows "fst (computePunches fr e) = None"
proof (cases "shouldersOk fr")
  case None
  then show ?thesis by (rule computePunches_early(2))
next
  case (Some lr)
  then obtain ls rs where ok: "shouldersOk fr = Some (ls, rs)" by (cases lr) auto
  let ?c = "frameCtx fr (prev e) ls rs"
  obtain oL where oL: "sideOut ?c SideLeft (prev_left (prev e)) = Some oL"
    by (simp add: sideOut_def Let_def wrists_frameCtx lw chooseHand_wrist)
  obtain oR where oR: "sideOut ?c SideRight (prev_right (prev e)) = Some oR"
    by (simp add: sideOut_def Let_def wrists_frameCtx rw chooseHand_wrist)
  have w: "c_lw ?c \<noteq> None" "c_rw ?c \<noteq> None"
    by (simp_all add: wrists_frameCtx lw rw)
  from computePunches_both_final[OF ok oL oR] acceptPunch_returns[OF w]
  show ?thesis by auto
qed

section \<open>The example frames, evaluated\<close>

lemma hypot_axis: "hypot a 0 = \<bar>a\<bar>"
  by (simp add: hypot_def)

lemma distance_axis: "py a = 0 \<Longrightarrow> py b = 0 \<Longrightarrow> distance a b = \<bar>px a - px b\<bar>"
  by (simp add: distance_def hypot_def)

lemmas hand_eval = sideOut_def ctxOf_def chooseHand_def kpAt_def scoreOr0_def pointOf_def
  minWristScore_def processHand_def smAlpha_def distance_axis hypot_axis truthyNum_def
  pushBounded_def Let_def

lemmas stable_eval = limbStable_def truthyBool_def updateRest_def updateMaxExt_def
  extensionRangeOf_def speedThresholdOf_def triggerDistOf_def currentPowerOf_def
  completionOf_def reasonsOf_def Let_def

lemmas frame_defs = frameF1_def frameA1_def frameA2_def frameB2_def frameB3_def frameD2_def
  frameE2_def frameM1_def

lemma shoulders_frames:
  "shouldersOk frameF1 = Some (kpAt ''left_shoulder'' 100, kpAt ''right_shoulder'' 0)"
  "shouldersOk frameA1 = Some (kpAt ''left_shoulder'' 100, kpAt ''right_shoulder'' 0)"
  "shouldersOk frameA2 = Some (kpAt ''left_shoulder'' 100, kpAt ''right_shoulder'' 0)"
  "shouldersOk frameB2 = Some (kpAt ''left_shoulder'' 100, kpAt ''right_shoulder'' 0)"
  "shouldersOk frameB3 = Some (kpAt ''left_shoulder'' 100, kpAt ''right_shoulder'' 0)"
  "shouldersOk frameD2 = Some (kpAt ''left_shoulder'' 100, kpAt ''right_shoulder'' 0)"
  "shouldersOk frameE2 = Some (kpAt ''left_shoulder'' 120, kpAt ''right_shoulder'' 0)"
  "shouldersOk frameM1 = Some (kpAt ''left_shoulder'' 100, kpAt ''right_shoulder'' 0)"
  by (simp_all add: shouldersOk_def frame_defs frameAt_def getKeypoint_def kpAt_def scoreOr0_def
        minShoulderScore_def)

lemma ctx_first:
  "frameCtx frameF1 (prev (initEngine None)) (kpAt ''left_shoulder'' 100) (kpAt ''right_shoulder'' 0)
     = ctxOf 1000 (1 / 120) 100 True 100
         (Some (kpAt ''left_wrist'' 110)) (Some (kpAt ''right_wrist'' (- 10))) None None"
  "frameCtx frameA1 (prev (initEngine None)) (kpAt ''left_shoulder'' 100) (kpAt ''right_shoulder'' 0)
     = ctxOf 1000 (1 / 120) 100 True 100
         None (Some (kpAt ''right_wrist'' (- 10))) (Some (kpAt ''left_elbow'' 110)) None"
  "frameCtx frameM1 (prev (initEngine None)) (kpAt ''left_shoulder'' 100) (kpAt ''right_shoulder'' 0)
     = ctxOf 1000 (1 / 120) 100 True 100
         None (Some (kpAt ''right_wrist'' (- 10))) None None"
  by (simp_all add: frameCtx_def Let_def pointOf_def initEngine_def ctxOf_def frame_defs
        frameAt_def getKeypoint_def kpAt_def distance_axis)

lemma ctx_second:
  "frameCtx frameA2 (prev stateF1) (kpAt ''left_shoulder'' 100) (kpAt ''right_shoulder'' 0)
     = ctxOf 1100 (1 / 10) 100 True 100
         None (Some (kpAt ''right_wrist'' (- 10))) (Some (kpAt ''left_elbow'' 210)) None"
  "frameCtx frameB2 (prev stateF1) (kpAt ''left_shoulder'' 100) (kpAt ''right_shoulder'' 0)
     = ctxOf 1500 (1 / 2) 100 True 100
         (Some (kpAt ''left_wrist'' 155)) (Some (kpAt ''right_wrist'' (- 10))) None None"
  "frameCtx frameD2 (prev stateF1) (kpAt ''left_shoulder'' 100) (kpAt ''right_shoulder'' 0)
     = ctxOf 1100 (1 / 10) 100 True 100
         (Some (kpAt ''left_wrist'' 260)) (Some (kpAt ''right_wrist'' (- 210))) None None"
  "frameCtx frameE2 (prev stateF1) (kpAt ''left_shoulder'' 120) (kpAt ''right_shoulder'' 0)
     = ctxOf 1100 (1 / 10) 120 False 120
         (Some (kpAt ''left_wrist'' 110)) (Some (kpAt ''right_wrist'' (- 10))) None None"
  "frameCtx frameB3 prevB2 (kpAt ''left_shoulder'' 100) (kpAt ''right_shoulder'' 0)
     = ctxOf 2000 (1 / 2) 100 True 100
         (Some (kpAt ''left_wrist'' 110)) (Some (kpAt ''right_wrist'' (- 10))) None None"
  by (simp_all add: frameCtx_def Let_def pointOf_def stateF1_def prevB2_def ctxOf_def frame_defs
        frameAt_def getKeypoint_def kpAt_def distance_axis)

lemma out_first:
  "sideOut (ctxOf 1000 (1 / 120) 100 True 100 lw (Some (kpAt ''right_wrist'' (- 10))) le re)
     SideRight emptyLimb = Some (outF1 (- 10))"
  "sideOut (ctxOf 1000 (1 / 120) 100 True 100 (Some (kpAt ''left_wrist'' 110)) rw le re)
     SideLeft emptyLimb = Some (outF1 110)"
  "sideOut (ctxOf 1000 (1 / 120) 100 True 100 None rw (Some (kpAt ''left_elbow'' 110)) re)
     SideLeft emptyLimb = Some (outF1 110)"
  by (simp add: hand_eval emptyLimb_def, simp add: stable_eval outF1_def limbF1_def debugF1_def)+

lemma out_missing:
  "sideOut (ctxOf 1000 (1 / 120) 100 True 100 None rw None re) SideLeft emptyLimb = None"
  by (simp add: sideOut_def ctxOf_def chooseHand_def emptyLimb_def)

lemma step_first:
  "computePunches frameF1 (initEngine None) = (None, stateF1)"
  "computePunches frameA1 (initEngine None) = (None, stateF1)"
proof -
  have l: "prev_left (prev (initEngine None)) = emptyLimb"
    "prev_right (prev (initEngine None)) = emptyLimb"
    by (simp_all add: initEngine_def)
  show "computePunches frameF1 (initEngine None) = (None, stateF1)"
    by (subst computePunches_both(2)[OF shoulders_frames(1)],
        simp_all add: ctx_first l out_first,
        simp add: outF1_def punchList_def applyOut_def withShoulders_def setLimb_def setStats_def
          setDebug_def updateCalibration_def setCalibrationStatusSafe_def truthyBool_def
          initEngine_def stateF1_def limbF1_def zeroStats_def frameF1_def frameAt_def Let_def
          kpAt_def pointOf_def)
  show "computePunches frameA1 (initEngine None) = (None, stateF1)"
    by (subst computePunches_both(2)[OF shoulders_frames(2)],
        simp_all add: ctx_first l out_first,
        simp add: outF1_def punchList_def applyOut_def withShoulders_def setLimb_def setStats_def
          setDebug_def updateCalibration_def setCalibrationStatusSafe_def truthyBool_def
          initEngine_def stateF1_def limbF1_def zeroStats_def frameA1_def frameAt_def Let_def
          kpAt_def pointOf_def)
qed

lemma processedOut_eval:
  assumes "shouldersOk fr = Some (ls, rs)"
    and "frameCtx fr (prev e) ls rs = c"
    and "sideOut c SideLeft (prev_left (prev e)) = Some oL"
  shows "processedOut fr e SideLeft = Some oL"
    "processedOut fr e SideRight = sideOut c SideRight (prev_right (prev e))"
  using assms by (simp_all add: processedOut_def)

lemma frame_fields_processed:
  assumes "processedOut fr e s = Some out"
  shows "RangeNorm (limbOf s (prev (snd (computePunches fr e)))) = RangeNorm (lo_limb out)"
    "RestExtension (limbOf s (prev (snd (computePunches fr e)))) = RestExtension (lo_limb out)"
    "lo_punch out = None \<Longrightarrow> limbOf s (prev (snd (computePunches fr e))) = lo_limb out"
  using frame_limb_processed(2)[OF assms] by (auto simp: raiseMax_fields)

lemma out_second:
  "\<exists>out. sideOut (ctxOf 1100 (1 / 10) 100 True 100
              None (Some (kpAt ''right_wrist'' (- 10))) (Some (kpAt ''left_elbow'' 210)) None)
            SideLeft (limbF1 110) = Some out \<and> lo_punch out = Some punchA2"
  "\<exists>out. sideOut (ctxOf 1100 (1 / 10) 100 True 100
              lw (Some (kpAt ''right_wrist'' (- 10))) le None)
            SideRight (limbF1 (- 10)) = Some out \<and> lo_punch out = None
          \<and> lo_limb out = limbRest2 (81 / 2000)"
  "\<exists>out. sideOut (ctxOf 1500 (1 / 2) 100 True 100
              (Some (kpAt ''left_wrist'' 155)) (Some (kpAt ''right_wrist'' (- 10))) None None)
            SideLeft (limbF1 110) = Some out \<and> lo_punch out = None \<and> lo_limb out = limbB2"
  "\<exists>out. sideOut (ctxOf 1500 (1 / 2) 100 True 100
              (Some (kpAt ''left_wrist'' 155)) (Some (kpAt ''right_wrist'' (- 10))) None None)
            SideRight (limbF1 (- 10)) = Some out \<and> lo_punch out = None
          \<and> lo_limb out = limbRest2 (81 / 2000)"
  "\<exists>out. sideOut (ctxOf 1100 (1 / 10) 100 True 100
              (Some (kpAt ''left_wrist'' 260)) (Some (kpAt ''right_wrist'' (- 210))) None None)
            SideLeft (limbF1 110) = Some out \<and> lo_punch out = Some punchD2L
          \<and> RangeNorm (lo_limb out) = Some (26 / 125)"
  "\<exists>out. sideOut (ctxOf 1100 (1 / 10) 100 True 100
              (Some (kpAt ''left_wrist'' 260)) (Some (kpAt ''right_wrist'' (- 210))) None None)
            SideRight (limbF1 (- 10)) = Some out \<and> lo_punch out = Some punchD2R"
  by (simp add: hand_eval limbF1_def,
      simp add: stable_eval punchA2_def punchD2L_def punchD2R_def limbB2_def limbRest2_def
        limbF1_def)+

lemma out_unstable:
  "\<exists>out. sideOut (ctxOf 1100 (1 / 10) 120 False 120
              (Some (kpAt ''left_wrist'' 110)) (Some (kpAt ''right_wrist'' (- 10))) None None)
            SideLeft (limbF1 110) = Some out \<and> lo_punch out = None
          \<and> RestExtension (lo_limb out) = Some 10 \<and> MaxExtension (lo_limb out) = Some 14"
  by (simp add: hand_eval limbF1_def)

lemma out_third:
  "\<exists>out. sideOut (ctxOf 2000 (1 / 2) 100 True 100
              (Some (kpAt ''left_wrist'' 110)) (Some (kpAt ''right_wrist'' (- 10))) None None)
            SideLeft limbB2 = Some out \<and> RangeNorm (lo_limb out) = Some (991 / 12500)"
  "\<exists>out. sideOut (ctxOf 2000 (1 / 2) 100 True 100
              (Some (kpAt ''left_wrist'' 110)) (Some (kpAt ''right_wrist'' (- 10))) None None)
            SideRight (limbRest2 (81 / 2000)) = Some out
          \<and> RangeNorm (lo_limb out) = Some (1 / 25)"
  by (simp add: hand_eval limbB2_def limbRest2_def limbF1_def, simp add: stable_eval)+

lemma stateF1_limbs:
  "prev_left (prev stateF1) = limbF1 110" "prev_right (prev stateF1) = limbF1 (- 10)"
  "\<not> truthyBool (calibrated (prev stateF1))"
  by (simp_all add: stateF1_def truthyBool_def)

lemma run_two: "run [f1, f2] e = snd (computePunches f2 (snd (computePunches f1 e)))"
  by simp

lemma run_F1: "snd (computePunches frameF1 (initEngine None)) = stateF1"
  "snd (computePunches frameA1 (initEngine None)) = stateF1"
  by (simp_all add: step_first)

text \<open>The frame in which both hands strike.\<close>

lemma frameD2_facts:
  "proposals frameD2 stateF1 = [punchD2L, punchD2R]"
  "\<exists>out. processedOut frameD2 stateF1 SideLeft = Some out
          \<and> RangeNorm (lo_limb out) = Some (26 / 125)"
  "processedOut frameD2 stateF1 SideRight \<noteq> None"
proof -
  from out_second(5) obtain oL where oL:
    "sideOut (ctxOf 1100 (1 / 10) 100 True 100
        (Some (kpAt ''left_wrist'' 260)) (Some (kpAt ''right_wrist'' (- 210))) None None)
       SideLeft (limbF1 110) = Some oL"
    "lo_punch oL = Some punchD2L" "RangeNorm (lo_limb oL) = Some (26 / 125)" by blast
  from out_second(6) obtain oR where oR:
    "sideOut (ctxOf 1100 (1 / 10) 100 True 100
        (Some (kpAt ''left_wrist'' 260)) (Some (kpAt ''right_wrist'' (- 210))) None None)
       SideRight (limbF1 (- 10)) = Some oR"
    "lo_punch oR = Some punchD2R" by blast
  note c = ctx_second(3)
  have sL: "sideOut (frameCtx frameD2 (prev stateF1) (kpAt ''left_shoulder'' 100)
              (kpAt ''right_shoulder'' 0)) SideLeft (prev_left (prev stateF1)) = Some oL"
    and sR: "sideOut (frameCtx frameD2 (prev stateF1) (kpAt ''left_shoulder'' 100)
              (kpAt ''right_shoulder'' 0)) SideRight (prev_right (prev stateF1)) = Some oR"
    by (simp_all add: c stateF1_limbs oL oR)
  show "proposals frameD2 stateF1 = [punchD2L, punchD2R]"
    using computePunches_both(1)[OF shoulders_frames(6) sL sR]
    by (simp add: punchList_def oL oR)
  show "\<exists>out. processedOut frameD2 stateF1 SideLeft = Some out
          \<and> RangeNorm (lo_limb out) = Some (26 / 125)"
    using processedOut_eval(1)[OF shoulders_frames(6) refl sL] oL(3) by simp
  show "processedOut frameD2 stateF1 SideRight \<noteq> None"
    using processedOut_eval(2)[OF shoulders_frames(6) refl sL] sR by simp
qed

text \<open>The frame in which the left elbow, standing in for the absent wrist, strikes.\<close>

lemma frameA2_facts:
  "proposals frameA2 stateF1 = [punchA2]"
  "fst (computePunches frameA2 stateF1) = Some TypeError"
proof -
  from out_second(1) obtain oL where oL:
    "sideOut (ctxOf 1100 (1 / 10) 100 True 100
        None (Some (kpAt ''right_wrist'' (- 10))) (Some (kpAt ''left_elbow'' 210)) None)
       SideLeft (limbF1 110) = Some oL"
    "lo_punch oL = Some punchA2" by blast
  from out_second(2)[of None "Some (kpAt ''left_elbow'' 210)"] obtain oR where oR:
    "sideOut (ctxOf 1100 (1 / 10) 100 True 100
        None (Some (kpAt ''right_wrist'' (- 10))) (Some (kpAt ''left_elbow'' 210)) None)
       SideRight (limbF1 (- 10)) = Some oR"
    "lo_punch oR = None" by blast
  note c = ctx_second(1)
  have sL: "sideOut (frameCtx frameA2 (prev stateF1) (kpAt ''left_shoulder'' 100)
              (kpAt ''right_shoulder'' 0)) SideLeft (prev_left (prev stateF1)) = Some oL"
    and sR: "sideOut (frameCtx frameA2 (prev stateF1) (kpAt ''left_shoulder'' 100)
              (kpAt ''right_shoulder'' 0)) SideRight (prev_right (prev stateF1)) = Some oR"
    by (simp_all add: c stateF1_limbs oL oR)
  show "proposals frameA2 stateF1 = [punchA2]"
    using computePunches_both(1)[OF shoulders_frames(3) sL sR]
    by (simp add: punchList_def oL oR)
  show "fst (computePunches frameA2 stateF1) = Some TypeError"
    by (simp add: computePunches_both(2)[OF shoulders_frames(3) sL sR] Let_def punchList_def
          oL oR arbitrate_single acceptPunch_def c ctxOf_def punchA2_def)
qed

text \<open>The slow reach and the return.\<close>

lemma frameB2_facts:
  "prev (snd (computePunches frameB2 stateF1)) = prevB2"
  "calibrationStatusRef (snd (computePunches frameB2 stateF1)) = Collecting"
proof -
  from out_second(3) obtain oL where oL:
    "sideOut (ctxOf 1500 (1 / 2) 100 True 100
        (Some (kpAt ''left_wrist'' 155)) (Some (kpAt ''right_wrist'' (- 10))) None None)
       SideLeft (limbF1 110) = Some oL"
    "lo_punch oL = None" "lo_limb oL = limbB2" by blast
  from out_second(4) obtain oR where oR:
    "sideOut (ctxOf 1500 (1 / 2) 100 True 100
        (Some (kpAt ''left_wrist'' 155)) (Some (kpAt ''right_wrist'' (- 10))) None None)
       SideRight (limbF1 (- 10)) = Some oR"
    "lo_punch oR = None" "lo_limb oR = limbRest2 (81 / 2000)" by blast
  note c = ctx_second(2)
  have sL: "sideOut (frameCtx frameB2 (prev stateF1) (kpAt ''left_shoulder'' 100)
              (kpAt ''right_shoulder'' 0)) SideLeft (prev_left (prev stateF1)) = Some oL"
    and sR: "sideOut (frameCtx frameB2 (prev stateF1) (kpAt ''left_shoulder'' 100)
              (kpAt ''right_shoulder'' 0)) SideRight (prev_right (prev stateF1)) = Some oR"
    by (simp_all add: c stateF1_limbs oL oR)
  have cp: "computePunches frameB2 stateF1 =
      (None, (updateCalibration (applyOut SideRight oR (applyOut SideLeft oL
                (withShoulders (kpAt ''left_shoulder'' 100) (kpAt ''right_shoulder'' 0) stateF1))))
             \<lparr>prev := (prev (updateCalibration (applyOut SideRight oR (applyOut SideLeft oL
                (withShoulders (kpAt ''left_shoulder'' 100) (kpAt ''right_shoulder'' 0) stateF1)))))
                  \<lparr>prev_t := f_now frameB2\<rparr>\<rparr>)"
    by (simp add: computePunches_both(2)[OF shoulders_frames(4) sL sR] Let_def punchList_def
          oL oR)
  have rn: "RangeNorm limbB2 = Some (41 / 500)" "RangeNorm (limbRest2 x) = Some (1 / 25)" for x
    by (simp_all add: limbB2_def limbRest2_def limbF1_def)
  show "prev (snd (computePunches frameB2 stateF1)) = prevB2"
    by (simp add: cp updateCalibration_def setCalibrationStatusSafe_def applyOut_fields
          setLimb_def withShoulders_def oL oR rn Let_def)
       (simp add: stateF1_def prevB2_def truthyBool_def frameB2_def frameAt_def kpAt_def
          pointOf_def)
  show "calibrationStatusRef (snd (computePunches frameB2 stateF1)) = Collecting"
    by (simp add: cp updateCalibration_def setCalibrationStatusSafe_def applyOut_fields
          setLimb_def withShoulders_def oL oR rn Let_def)
       (simp add: stateF1_def truthyBool_def)
qed

lemma frameB3_facts:
  "calibrationStatusRef (snd (computePunches frameB3 (snd (computePunches frameB2 stateF1))))
     = Waiting"
proof -
  define e where "e = snd (computePunches frameB2 stateF1)"
  have pe: "prev e = prevB2" unfolding e_def by (rule frameB2_facts(1))
  from out_third(1) obtain oL where oL:
    "sideOut (ctxOf 2000 (1 / 2) 100 True 100
        (Some (kpAt ''left_wrist'' 110)) (Some (kpAt ''right_wrist'' (- 10))) None None)
       SideLeft limbB2 = Some oL"
    "RangeNorm (lo_limb oL) = Some (991 / 12500)" by blast
  from out_third(2) obtain oR where oR:
    "sideOut (ctxOf 2000 (1 / 2) 100 True 100
        (Some (kpAt ''left_wrist'' 110)) (Some (kpAt ''right_wrist'' (- 10))) None None)
       SideRight (limbRest2 (81 / 2000)) = Some oR"
    "RangeNorm (lo_limb oR) = Some (1 / 25)" by blast
  have sL: "sideOut (frameCtx frameB3 (prev e) (kpAt ''left_shoulder'' 100)
              (kpAt ''right_shoulder'' 0)) SideLeft (prev_left (prev e)) = Some oL"
    and sR: "sideOut (frameCtx frameB3 (prev e) (kpAt ''left_shoulder'' 100)
              (kpAt ''right_shoulder'' 0)) SideRight (prev_right (prev e)) = Some oR"
    by (simp_all add: pe ctx_second(5) oL oR) (simp_all add: prevB2_def oL oR)
  have poL: "processedOut frameB3 e SideLeft = Some oL"
    and poR: "processedOut frameB3 e SideRight = Some oR"
    using processedOut_eval[OF shoulders_frames(5) refl sL] sR by simp_all
  have nc: "\<not> truthyBool (calibrated (prev e))"
    by (simp add: pe prevB2_def truthyBool_def)
  have "calibrationStatusRef (snd (computePunches frameB3 e))
          = statusFor (991 / 12500) (1 / 25)"
    using frame_status_tracks[OF nc, of frameB3] poR
      frame_fields_processed(1)[OF poL] frame_fields_processed(1)[OF poR]
    by (simp add: rangeOr0_def oL oR)
  then show ?thesis unfolding e_def by (simp add: statusFor_def)
qed

lemma frameE2_facts:
  "RestExtension (prev_left (prev (snd (computePunches frameE2 stateF1)))) = Some 10"
  "MaxExtension (prev_left (prev (snd (computePunches frameE2 stateF1)))) = Some 14"
  "processedOut frameE2 stateF1 SideLeft \<noteq> None"
proof -
  from out_unstable obtain oL where oL:
    "sideOut (ctxOf 1100 (1 / 10) 120 False 120
        (Some (kpAt ''left_wrist'' 110)) (Some (kpAt ''right_wrist'' (- 10))) None None)
       SideLeft (limbF1 110) = Some oL"
    "lo_punch oL = None" "RestExtension (lo_limb oL) = Some 10"
    "MaxExtension (lo_limb oL) = Some 14" by blast
  have sL: "sideOut (frameCtx frameE2 (prev stateF1) (kpAt ''left_shoulder'' 120)
              (kpAt ''right_shoulder'' 0)) SideLeft (prev_left (prev stateF1)) = Some oL"
    by (simp add: ctx_second(4) stateF1_limbs oL)
  have po: "processedOut frameE2 stateF1 SideLeft = Some oL"
    by (rule processedOut_eval(1)[OF shoulders_frames(7) refl sL])
  from frame_fields_processed(3)[OF po oL(2)]
  show "RestExtension (prev_left (prev (snd (computePunches frameE2 stateF1)))) = Some 10"
    "MaxExtension (prev_left (prev (snd (computePunches frameE2 stateF1)))) = Some 14"
    by (simp_all add: limbOf_def oL)
  show "processedOut frameE2 stateF1 SideLeft \<noteq> None" using po by simp
qed

lemma frameM1_facts:
  "computePunches frameM1 (initEngine None)
     = (Some ReferenceError,
        withShoulders (kpAt ''left_shoulder'' 100) (kpAt ''right_shoulder'' 0) (initEngine None))"
proof -
  have l: "prev_left (prev (initEngine None)) = emptyLimb" by (simp add: initEngine_def)
  show ?thesis
    by (rule computePunches_ref_left(2)[OF shoulders_frames(8)])
       (simp add: ctx_first l out_missing)
qed

lemma example_values:
  "st_total (statsOf s stateF1) = 0" "historyOf s stateF1 = []"
  "p_side punchD2L = SideLeft" "p_side punchD2R = SideRight" "p_side punchA2 = SideLeft"
  "p_power punchD2R > p_power punchD2L"
  "f_now frameD2 = 1100" "f_now frameD3 = 1200"
  by (cases s; simp add: statsOf_def historyOf_def stateF1_def zeroStats_def punchD2L_def
        punchD2R_def punchA2_def frameD2_def frameD3_def frameAt_def)+

text \<open>
  Claim C1, as stated, fails: with both hands at rest, then a slow reach of the left hand,
  then its return, the status is Waiting, then Collecting, then Waiting again.
\<close>

theorem C1_status_regresses_counterexample:
  "calibrationStatusRef (run [frameF1] (initEngine None)) = Waiting
   \<and> calibrationStatusRef (run [frameF1, frameB2] (initEngine None)) = Collecting
   \<and> calibrationStatusRef (run [frameF1, frameB2, frameB3] (initEngine None)) = Waiting"
  by (simp add: run_F1 frameB2_facts frameB3_facts) (simp add: stateF1_def)

lemma frameD2_complete:
  "calibrationStatusRef (snd (computePunches frameD2 stateF1)) = Complete"
proof -
  from frameD2_facts(2) obtain oL where oL: "processedOut frameD2 stateF1 SideLeft = Some oL"
    "RangeNorm (lo_limb oL) = Some (26 / 125)" by blast
  have "calibrationStatusRef (snd (computePunches frameD2 stateF1))
          = statusFor (26 / 125) (rangeOr0 SideRight (snd (computePunches frameD2 stateF1)))"
    using frame_status_tracks[OF stateF1_limbs(3) frameD2_facts(3)]
      frame_fields_processed(1)[OF oL(1)]
    by (simp add: rangeOr0_def oL(2))
  then show ?thesis by (simp add: statusFor_def)
qed

text \<open>
  The amended claim C1 on the frames in which both hands strike: the status is Complete
  after the second frame and still Complete after a third one.
\<close>

theorem C1_complete_is_terminal_witness:
  "calibrationStatusRef (run [frameF1, frameD2] (initEngine None)) = Complete
   \<and> calibrationStatusRef (run ([frameF1, frameD2] @ [frameB3]) (initEngine None)) = Complete
   \<and> calibrationStatus (run [frameF1, frameD2] (initEngine None)) = Complete
   \<and> \<not> truthyBool (calibrated (prev stateF1))
   \<and> processedOut frameD2 stateF1 SideRight \<noteq> None
   \<and> statusFor (rangeOr0 SideLeft (snd (computePunches frameD2 stateF1)))
                (rangeOr0 SideRight (snd (computePunches frameD2 stateF1))) = Complete"
  using C1_complete_is_terminal[of "[frameF1, frameD2]" None "[frameB3]" stateF1 frameD2]
    frameD2_complete stateF1_limbs(3) frameD2_facts(3)
  by (simp add: run_F1)

text \<open>
  Claim C2 at a failing input: the left wrist keypoint is absent from both frames and the
  left elbow is tracked in its place. The first frame returns. In the second the left
  limb proposes a strike, and the scoring loop reads \<^verbatim>\<open>lw.x\<close> of the undefined
  wrist: the frame function raises a TypeError.
\<close>

theorem C2_absent_wrist_raises:
  "getKeypoint (f_keypoints frameA1) ''left_wrist'' = None
   \<and> getKeypoint (f_keypoints frameA2) ''left_wrist'' = None
   \<and> fst (computePunches frameA1 (initEngine None)) = None
   \<and> proposals frameA2 (snd (computePunches frameA1 (initEngine None))) = [punchA2]
   \<and> fst (computePunches frameA2 (snd (computePunches frameA1 (initEngine None))))
       = Some TypeError"
  by (simp add: run_F1 step_first frameA2_facts)
     (simp add: frameA1_def frameA2_def frameAt_def getKeypoint_def kpAt_def)

text \<open>
  Claim C3 at a failing input, the two frames of claim C2: in the second frame exactly one
  limb proposes, the left one, through the elbow that stands in for the absent wrist. The
  scoring loop reads \<^verbatim>\<open>lw.x\<close> of the undefined wrist and throws before
  \<^verbatim>\<open>pushHistory\<close> and the update of the stats: the only proposal of the frame is not
  counted, no strike count grows and the left history stays empty, while the left limb is
  Active after the frame.
\<close>

theorem C3_sole_proposal_not_counted:
  "proposals frameA2 (snd (computePunches frameA1 (initEngine None))) = [punchA2]
   \<and> p_side punchA2 = SideLeft
   \<and> fst (computePunches frameA2 (snd (computePunches frameA1 (initEngine None))))
       = Some TypeError
   \<and> st_total (statsOf SideLeft (run [frameA1, frameA2] (initEngine None))) = 0
   \<and> st_total (statsOf SideRight (run [frameA1, frameA2] (initEngine None))) = 0
   \<and> historyOf SideLeft (run [frameA1, frameA2] (initEngine None)) = []
   \<and> PunchDetected (limbOf SideLeft (prev (run [frameA1, frameA2] (initEngine None))))
       = Some True"
proof -
  have cnt: "st_total (statsOf s (snd (computePunches frameA2 stateF1))) = 0"
    "historyOf s (snd (computePunches frameA2 stateF1)) = []" for s
    using frame_counts[of frameA2 stateF1] frameA2_facts(2)
    by (auto simp: example_values)
  have act: "PunchDetected (limbOf SideLeft (prev (snd (computePunches frameA2 stateF1))))
               = Some True"
    using proposal_fields(2)[of punchA2 frameA2 stateF1] frameA2_facts(1)
    by (simp add: example_values)
  show ?thesis
    by (simp add: run_F1 frameA2_facts cnt act example_values)
qed

text \<open>
  Claim C5 at a failing input: a first frame with neither a left wrist nor a left elbow,
  so that no fallback position exists. The frame function raises a ReferenceError before
  it publishes a debug record: the left debug record is still the initial one and does
  not report "hand keypoint missing".
\<close>

theorem C5_missing_hand_raises:
  "getKeypoint (f_keypoints frameM1) ''left_wrist'' = None
   \<and> getKeypoint (f_keypoints frameM1) ''left_elbow'' = None
   \<and> Hand (prev_left (prev (initEngine None))) = None
   \<and> fst (computePunches frameM1 (initEngine None)) = Some ReferenceError
   \<and> dbg_reasons (leftDebug (snd (computePunches frameM1 (initEngine None)))) = [ReasonWaiting]
   \<and> dbg_reasons (leftDebug (snd (computePunches frameM1 (initEngine None))))
       \<noteq> [HandKeypointMissing]"
  by (simp add: frameM1_facts)
     (simp add: withShoulders_def initEngine_def emptyDebug_def emptyLimb_def frameM1_def
        frameAt_def getKeypoint_def kpAt_def)

text \<open>
  Claim C6, as stated, fails on the unstable-frame path: when the shoulder span grows
  from 100 to 120 between two frames, the second frame is unstable and the left limb
  keeps rest extension 10 and maximum extension 14, which is below 10 + 120 * 0.04.
\<close>

theorem C6_unstable_frame_counterexample:
  "RestExtension (prev_left (prev (run [frameF1, frameE2] (initEngine None)))) = Some 10
   \<and> MaxExtension (prev_left (prev (run [frameF1, frameE2] (initEngine None)))) = Some 14
   \<and> processedOut frameE2 (run [frameF1] (initEngine None)) SideLeft \<noteq> None
   \<and> c_norm (frameCtx frameE2 (prev (run [frameF1] (initEngine None)))
               (kpAt ''left_shoulder'' 120) (kpAt ''right_shoulder'' 0)) = 120
   \<and> \<not> c_torsoStable (frameCtx frameE2 (prev (run [frameF1] (initEngine None)))
               (kpAt ''left_shoulder'' 120) (kpAt ''right_shoulder'' 0))
   \<and> \<not> ((14 :: real) \<ge> 10 + 120 * 0.04)"
  by (simp add: run_F1 frameE2_facts ctx_second(4)) (simp add: ctxOf_def)

text \<open>
  The amended claim C6 on the example frames: the invariant holds initially, after the
  stable first frame (with the bound for its \<open>norm\<close>) and after the unstable second one.
\<close>

theorem C6_extension_floor_witness:
  "extInv (limbOf SideLeft (prev (initEngine None)))
   \<and> extInv (limbOf SideLeft (prev (run [frameF1, frameE2] (initEngine None))))
   \<and> extInv (limbOf SideLeft (prev (snd (computePunches frameF1 (initEngine None)))))
   \<and> shouldersOk frameF1 = Some (kpAt ''left_shoulder'' 100, kpAt ''right_shoulder'' 0)
   \<and> c_torsoStable (frameCtx frameF1 (prev (initEngine None))
        (kpAt ''left_shoulder'' 100) (kpAt ''right_shoulder'' 0))
   \<and> processedOut frameF1 (initEngine None) SideLeft = Some (outF1 110)
   \<and> (\<exists>r m. RestExtension (limbOf SideLeft (prev stateF1)) = Some r
         \<and> MaxExtension (limbOf SideLeft (prev stateF1)) = Some m
         \<and> m \<ge> r + c_norm (frameCtx frameF1 (prev (initEngine None))
                (kpAt ''left_shoulder'' 100) (kpAt ''right_shoulder'' 0)) * 0.04)"
proof -
  have po: "processedOut frameF1 (initEngine None) SideLeft = Some (outF1 110)"
    by (rule processedOut_eval(1)[OF shoulders_frames(1) ctx_first(1)])
       (simp add: initEngine_def out_first)
  have st: "c_torsoStable (frameCtx frameF1 (prev (initEngine None))
        (kpAt ''left_shoulder'' 100) (kpAt ''right_shoulder'' 0))"
    by (simp add: ctx_first ctxOf_def)
  have i0: "extInv (limbOf SideLeft (prev (initEngine None)))"
    by (simp add: limbOf_def initEngine_def emptyLimb_def extInv_def)
  show ?thesis
    using C6_extension_floor[of "[frameF1, frameE2]" None "initEngine None" frameF1]
      po st i0 shoulders_frames(1)
    by (simp add: run_F1)
qed

text \<open>
  Claim C7 on the frames in which both hands strike: the left limb proposes at 1100, its
  \<^verbatim>\<open>cooldownUntil\<close> is 1350, and it proposes nothing in a frame at 1200.
\<close>

theorem C7_cooldown_witness:
  "punchD2L \<in> set (proposals frameD2 stateF1)
   \<and> CooldownUntil (limbOf SideLeft (prev (snd (computePunches frameD2 stateF1)))) = Some 1350
   \<and> f_now frameD3 < f_now frameD2 + 250
   \<and> punchesOf SideLeft (proposals frameD3 (snd (computePunches frameD2 stateF1))) = []"
  using C7_cooldown[of frameD2 stateF1 "[frameD3]" SideLeft] frameD2_facts(1)
  by (simp add: example_values punchesOf_def filter_empty_conv)

text \<open>
  Claim C10 on the frame in which both hands strike: the left proposal has the lower
  power and is dropped.
\<close>

theorem C10_dropped_limb_witness:
  "proposals frameD2 stateF1 = [punchD2L, punchD2R]
   \<and> p_power punchD2R > p_power punchD2L
   \<and> accepted frameD2 stateF1 = [punchD2R]
   \<and> PunchDetected (limbOf SideLeft (prev (snd (computePunches frameD2 stateF1)))) = Some True
   \<and> CooldownUntil (limbOf SideLeft (prev (snd (computePunches frameD2 stateF1)))) = Some 1350
   \<and> st_total (statsOf SideLeft (snd (computePunches frameD2 stateF1))) = 0
   \<and> historyOf SideLeft (snd (computePunches frameD2 stateF1)) = []
   \<and> punchesOf SideLeft (proposals frameD3 (snd (computePunches frameD2 stateF1))) = []"
  using C10_dropped_limb[of frameD2 stateF1] frameD2_facts(1)
  by (simp add: example_values Let_def punchesOf_def filter_empty_conv)

end
